theory Spec2Isabelle
  imports Complex_Main "HOL-Library.Log_Nat"
begin

section \<open>Python floats\<close>

text \<open>
  Balances and amounts are Python floats, that is IEEE 754 binary64 numbers. A value is
  a finite number, negative zero, one of the two infinities, or NaN. A finite value is
  carried as the rational number it denotes; \<open>Finite 0\<close> is positive zero. Every literal
  and every result of an addition or subtraction is rounded to binary64 by
  \<open>round_double\<close>. The theorems below hold for every value of the type, so in particular
  for the doubles.
\<close>

datatype float = Finite rat | NegZero | PInf | NInf | NaN

definition pow2 :: "int \<Rightarrow> rat" where
  "pow2 k = (if 0 \<le> k then 2 ^ nat k else 1 / 2 ^ nat (- k))"

text \<open>
  The binary exponent of a positive rational: \<open>ilog2 r\<close> is the integer \<open>e\<close> with
  \<open>pow2 e \<le> r < pow2 (e + 1)\<close>. With \<open>r = p / q\<close> in lowest terms, the difference of the
  bit lengths of \<open>p\<close> and \<open>q\<close> is \<open>e\<close> or \<open>e + 1\<close>.
\<close>

definition ilog2 :: "rat \<Rightarrow> int" where
  "ilog2 r = (let (p, q) = quotient_of r; d = bitlen p - bitlen q
              in if pow2 d \<le> r then d else d - 1)"

text \<open>Rounding to the nearest integer, a tie going to the even one.\<close>

definition round_even :: "rat \<Rightarrow> int" where
  "round_even q =
     (let f = \<lfloor>q\<rfloor>; d = q - of_int f
      in if d < 1 / 2 then f else if 1 / 2 < d then f + 1 else if even f then f else f + 1)"

text \<open>
  Rounding a rational to binary64, to nearest with ties to even: the value is rounded to
  a multiple of \<open>pow2 (e - 52)\<close>, where \<open>e\<close> is its binary exponent and at least \<open>-1022\<close>
  (below that the numbers are subnormal and the spacing is \<open>pow2 (-1074)\<close>). A result of
  magnitude \<open>pow2 1024\<close> or more is an infinity; a negative value that rounds to zero is
  negative zero.
\<close>

definition round_double :: "rat \<Rightarrow> float" where
  "round_double r =
     (if r = 0 then Finite 0
      else (let e = ilog2 \<bar>r\<bar>;
                quantum = pow2 (max e (- 1022) - 52);
                m = round_even (r / quantum)
            in if 1024 \<le> e \<or> (e = 1023 \<and> 2 ^ 53 \<le> \<bar>m\<bar>)
               then (if 0 < r then PInf else NInf)
               else if m = 0 then (if 0 < r then Finite 0 else NegZero)
               else Finite (of_int m * quantum)))"

text \<open>A float literal of the program text, such as \<open>500.0\<close> or \<open>0.9\<close>, given by its decimal value.\<close>

definition fl :: "rat \<Rightarrow> float" where
  "fl r = round_double r"

text \<open>\<open>math.isfinite\<close>, and the number a finite value denotes.\<close>

definition is_finite :: "float \<Rightarrow> bool" where
  "is_finite x = (case x of Finite r \<Rightarrow> True | NegZero \<Rightarrow> True | _ \<Rightarrow> False)"

definition valof :: "float \<Rightarrow> rat" where
  "valof x = (case x of Finite r \<Rightarrow> r | _ \<Rightarrow> 0)"

definition fneg :: "float \<Rightarrow> float" where
  "fneg x = (case x of
       Finite r \<Rightarrow> (if r = 0 then NegZero else Finite (- r))
     | NegZero \<Rightarrow> Finite 0
     | PInf \<Rightarrow> NInf
     | NInf \<Rightarrow> PInf
     | NaN \<Rightarrow> NaN)"

text \<open>
  The operators the program uses on floats. NaN propagates through \<open>+\<close> and \<open>-\<close>, and so
  does the sum of opposite infinities; a sum of finite values is zero with a negative
  sign only if both operands are negative zero; \<open>x - y\<close> is \<open>x + (-y)\<close>. Every comparison
  with NaN is false, the two zeros compare equal, and \<open>0\<close> is the integer literal \<open>0\<close> of
  the guards, which Python converts to \<open>0.0\<close>. Only \<open>zero\<close>, \<open>plus\<close>, \<open>minus\<close> and \<open>ord\<close> are
  instantiated: these classes carry no laws, and none of the algebraic or order laws of
  the rationals is assumed of floats.
\<close>

instantiation float :: "{zero, plus, minus, ord}"
begin

definition zero_float :: float where
  "zero_float = Finite 0"

definition plus_float :: "float \<Rightarrow> float \<Rightarrow> float" where
  "plus_float x y =
     (if x = NaN \<or> y = NaN then NaN
      else if x = PInf then (if y = NInf then NaN else PInf)
      else if x = NInf then (if y = PInf then NaN else NInf)
      else if y = PInf then PInf
      else if y = NInf then NInf
      else if x = NegZero \<and> y = NegZero then NegZero
      else round_double (valof x + valof y))"

definition minus_float :: "float \<Rightarrow> float \<Rightarrow> float" where
  "minus_float x y = x + fneg y"

definition less_eq_float :: "float \<Rightarrow> float \<Rightarrow> bool" where
  "less_eq_float x y =
     (x \<noteq> NaN \<and> y \<noteq> NaN \<and>
      (x = NInf \<or> y = PInf \<or> (is_finite x \<and> is_finite y \<and> valof x \<le> valof y)))"

definition less_float :: "float \<Rightarrow> float \<Rightarrow> bool" where
  "less_float x y = (x \<noteq> NaN \<and> y \<noteq> NaN \<and> \<not> y \<le> x)"

instance ..

end

text \<open>A rational is representable when rounding leaves it as it is.\<close>

definition representable :: "rat \<Rightarrow> bool" where
  "representable r = (round_double r = Finite r)"

section \<open>Object model of \<open>models.py\<close> and \<open>services.py\<close>\<close>

text \<open>
  The Python program works on shared, mutable objects: an \<open>Account\<close> is referenced from its
  owner's list, from the database dictionary and from every \<open>Transaction\<close> that names it.
  The embedding therefore keeps an explicit object store. A reference is a natural number,
  and each class has its own table from references to the current field values. A Python
  reference always denotes a live object, so the tables are total; \<open>None\<close> is modelled by
  \<open>option\<close> exactly where the program can produce it (the dictionary lookups of
  \<open>BankingService.transfer\<close>, which are handed to \<open>Transaction\<close> unchecked).

  Balances and amounts have the type \<open>float\<close> of the previous section, so \<open>+\<close>, \<open>-\<close>,
  \<open>\<le>\<close> and \<open><\<close> on them are the binary64 operations, with rounding, infinities and NaN.
\<close>

type_synonym uref = nat
type_synonym aref = nat
type_synonym tref = nat

record user =
  user_id :: int
  name :: string
  accounts :: "aref list"

record account =
  account_id :: int
  owner :: uref
  balance :: float
  transactions :: "tref list"

datatype status = PENDING | COMPLETED | FAILED

record transaction =
  tx_id :: int
  source :: "aref option"
  destination :: "aref option"
  amount :: float
  status :: status

text \<open>
  The three messages built by \<open>BankingService.transfer\<close>. The f-strings interpolate the
  amount passed to \<open>transfer\<close> and an account id; the constructors carry these values
  instead of the rendered text.
\<close>

datatype message =
  TransferSucceeded float int
  | Received float int
  | TransferFailed float

text \<open>
  Exceptions: the two \<open>ValueError\<close>s raised by \<open>deposit\<close> and \<open>withdraw\<close>, and the
  \<open>AttributeError\<close> that Python raises when an attribute of \<open>None\<close> is read (the string is
  the attribute).
\<close>

datatype error = ValueError string | AttributeError string

text \<open>
  The whole program state: the object tables with the allocation counter, the three
  dictionaries of \<open>Database._store\<close>, the counter \<open>_next_tx_id\<close> of the
  \<open>BankingService\<close>, and the calls made to \<open>NotificationService.notify\<close> (recipient and
  message, oldest first; the program prints one line per call).
\<close>

record state =
  user_objs :: "uref \<Rightarrow> user"
  account_objs :: "aref \<Rightarrow> account"
  tx_objs :: "tref \<Rightarrow> transaction"
  next_ref :: nat
  store_users :: "int \<rightharpoonup> uref"
  store_accounts :: "int \<rightharpoonup> aref"
  store_transactions :: "int \<rightharpoonup> tref"
  next_tx_id :: int
  notified :: "(uref \<times> message) list"

type_synonym 'a result = "(error + 'a) \<times> state"

definition upd_user :: "state \<Rightarrow> uref \<Rightarrow> (user \<Rightarrow> user) \<Rightarrow> state" where
  "upd_user s u f = s\<lparr>user_objs := (user_objs s)(u := f (user_objs s u))\<rparr>"

definition upd_account :: "state \<Rightarrow> aref \<Rightarrow> (account \<Rightarrow> account) \<Rightarrow> state" where
  "upd_account s a f = s\<lparr>account_objs := (account_objs s)(a := f (account_objs s a))\<rparr>"

definition upd_tx :: "state \<Rightarrow> tref \<Rightarrow> (transaction \<Rightarrow> transaction) \<Rightarrow> state" where
  "upd_tx s t f = s\<lparr>tx_objs := (tx_objs s)(t := f (tx_objs s t))\<rparr>"

subsection \<open>User\<close>

definition User_init :: "state \<Rightarrow> int \<Rightarrow> string \<Rightarrow> uref \<times> state" where
  "User_init s uid nm =
     (next_ref s,
      s\<lparr>user_objs := (user_objs s)(next_ref s := \<lparr>user_id = uid, name = nm, accounts = []\<rparr>),
        next_ref := Suc (next_ref s)\<rparr>)"

definition add_account :: "state \<Rightarrow> uref \<Rightarrow> aref \<Rightarrow> state" where
  "add_account s u a = upd_user s u (\<lambda>usr. usr\<lparr>accounts := accounts usr @ [a]\<rparr>)"

subsection \<open>Account\<close>

text \<open>
  \<open>Account.__init__\<close>: the fields are stored as given (\<open>float(balance)\<close> is the identity on a
  float), the new object is appended to the owner's list, and the history starts empty.
  There is no check of the initial balance.
\<close>

definition Account_init :: "state \<Rightarrow> int \<Rightarrow> uref \<Rightarrow> float \<Rightarrow> aref \<times> state" where
  "Account_init s aid ow bal =
     (let a = next_ref s;
          s1 = s\<lparr>account_objs := (account_objs s)
                  (a := \<lparr>account_id = aid, owner = ow, balance = bal, transactions = []\<rparr>),
                next_ref := Suc (next_ref s)\<rparr>;
          s2 = add_account s1 ow a
      in (a, s2))"

definition deposit :: "state \<Rightarrow> aref \<Rightarrow> float \<Rightarrow> unit result" where
  "deposit s a amt =
     (if amt \<le> 0 then (Inl (ValueError ''Amount must be positive''), s)
      else (Inr (), upd_account s a (\<lambda>acc. acc\<lparr>balance := balance acc + amt\<rparr>)))"

definition withdraw :: "state \<Rightarrow> aref \<Rightarrow> float \<Rightarrow> unit result" where
  "withdraw s a amt =
     (if amt \<le> 0 then (Inl (ValueError ''Amount must be positive''), s)
      else if amt > balance (account_objs s a) then (Inl (ValueError ''Insufficient funds''), s)
      else (Inr (), upd_account s a (\<lambda>acc. acc\<lparr>balance := balance acc - amt\<rparr>)))"

definition add_transaction :: "state \<Rightarrow> aref \<Rightarrow> tref \<Rightarrow> state" where
  "add_transaction s a t = upd_account s a (\<lambda>acc. acc\<lparr>transactions := transactions acc @ [t]\<rparr>)"

definition get_balance :: "state \<Rightarrow> aref \<Rightarrow> float" where
  "get_balance s a = balance (account_objs s a)"

subsection \<open>Transaction\<close>

definition Transaction_init ::
  "state \<Rightarrow> int \<Rightarrow> aref option \<Rightarrow> aref option \<Rightarrow> float \<Rightarrow> tref \<times> state" where
  "Transaction_init s tid src dst amt =
     (next_ref s,
      s\<lparr>tx_objs := (tx_objs s)
          (next_ref s := \<lparr>tx_id = tid, source = src, destination = dst, amount = amt,
                          status = PENDING\<rparr>),
        next_ref := Suc (next_ref s)\<rparr>)"

text \<open>
  \<open>validate\<close>: \<open>self.amount > 0 and self.source.get_balance() >= self.amount\<close>. The
  conjunction is short-circuit, so the source is only dereferenced for a positive amount;
  with \<open>source = None\<close> that dereference raises.
\<close>

definition validate :: "state \<Rightarrow> tref \<Rightarrow> bool result" where
  "validate s t =
     (if \<not> amount (tx_objs s t) > 0 then (Inr False, s)
      else (case source (tx_objs s t) of
              None \<Rightarrow> (Inl (AttributeError ''get_balance''), s)
            | Some a \<Rightarrow> (Inr (get_balance s a \<ge> amount (tx_objs s t)), s)))"

text \<open>The statements inside the \<open>try\<close> block of \<open>process\<close>, stopping at the first exception.\<close>

definition process_try :: "state \<Rightarrow> tref \<Rightarrow> bool result" where
  "process_try s t =
     (case source (tx_objs s t) of
        None \<Rightarrow> (Inl (AttributeError ''withdraw''), s)
      | Some a \<Rightarrow>
         (case withdraw s a (amount (tx_objs s t)) of
            (Inl e, s1) \<Rightarrow> (Inl e, s1)
          | (Inr _, s1) \<Rightarrow>
             (case destination (tx_objs s1 t) of
                None \<Rightarrow> (Inl (AttributeError ''deposit''), s1)
              | Some b \<Rightarrow>
                 (case deposit s1 b (amount (tx_objs s1 t)) of
                    (Inl e, s2) \<Rightarrow> (Inl e, s2)
                  | (Inr _, s2) \<Rightarrow>
                     (let s3 = add_transaction s2 a t;
                          s4 = add_transaction s3 b t;
                          s5 = upd_tx s4 t (\<lambda>tx. tx\<lparr>status := COMPLETED\<rparr>)
                      in (Inr True, s5))))))"

text \<open>
  \<open>process\<close>: \<open>validate\<close> is called outside the \<open>try\<close>, so its exception propagates; every
  exception of the \<open>try\<close> block is caught by \<open>except Exception\<close>, which sets the status and
  returns \<open>False\<close>, keeping whatever the block had already changed.
\<close>

definition process :: "state \<Rightarrow> tref \<Rightarrow> bool result" where
  "process s t =
     (case validate s t of
        (Inl e, s1) \<Rightarrow> (Inl e, s1)
      | (Inr ok, s1) \<Rightarrow>
         (if \<not> ok then (Inr False, upd_tx s1 t (\<lambda>tx. tx\<lparr>status := FAILED\<rparr>))
          else (case process_try s1 t of
                  (Inl e, s2) \<Rightarrow> (Inr False, upd_tx s2 t (\<lambda>tx. tx\<lparr>status := FAILED\<rparr>))
                | (Inr r, s2) \<Rightarrow> (Inr r, s2))))"

subsection \<open>Database, AuthService, NotificationService\<close>

definition save_user :: "state \<Rightarrow> uref \<Rightarrow> state" where
  "save_user s u = s\<lparr>store_users := (store_users s)(user_id (user_objs s u) \<mapsto> u)\<rparr>"

definition save_account :: "state \<Rightarrow> aref \<Rightarrow> state" where
  "save_account s a = s\<lparr>store_accounts := (store_accounts s)(account_id (account_objs s a) \<mapsto> a)\<rparr>"

definition save_transaction :: "state \<Rightarrow> tref \<Rightarrow> state" where
  "save_transaction s t = s\<lparr>store_transactions := (store_transactions s)(tx_id (tx_objs s t) \<mapsto> t)\<rparr>"

definition get_user :: "state \<Rightarrow> int \<Rightarrow> uref option" where
  "get_user s uid = store_users s uid"

definition login :: "state \<Rightarrow> int \<Rightarrow> uref option" where
  "login s uid = get_user s uid"

definition notify :: "state \<Rightarrow> uref \<Rightarrow> message \<Rightarrow> state" where
  "notify s u m = s\<lparr>notified := notified s @ [(u, m)]\<rparr>"

subsection \<open>BankingService\<close>

definition BankingService_init :: "state \<Rightarrow> state" where
  "BankingService_init s = s\<lparr>next_tx_id := 1\<rparr>"

definition list_accounts :: "state \<Rightarrow> uref \<Rightarrow> aref list" where
  "list_accounts s u = accounts (user_objs s u)"

text \<open>
  The notification part of \<open>transfer\<close>. In each call to \<open>notify\<close> the first argument
  (\<open>source.owner\<close>, \<open>dest.owner\<close>) is evaluated before the f-string.
\<close>

definition transfer_notify ::
  "state \<Rightarrow> aref option \<Rightarrow> aref option \<Rightarrow> float \<Rightarrow> bool \<Rightarrow> tref \<Rightarrow> tref result" where
  "transfer_notify s src dst amt success t =
     (if success then
        (case src of
           None \<Rightarrow> (Inl (AttributeError ''owner''), s)
         | Some a \<Rightarrow>
            (case dst of
               None \<Rightarrow> (Inl (AttributeError ''account_id''), s)
             | Some b \<Rightarrow>
                (let s1 = notify s (owner (account_objs s a))
                            (TransferSucceeded amt (account_id (account_objs s b)));
                     s2 = notify s1 (owner (account_objs s1 b))
                            (Received amt (account_id (account_objs s1 a)))
                 in (Inr t, s2))))
      else
        (case src of
           None \<Rightarrow> (Inl (AttributeError ''owner''), s)
         | Some a \<Rightarrow> (Inr t, notify s (owner (account_objs s a)) (TransferFailed amt))))"

definition transfer :: "state \<Rightarrow> int \<Rightarrow> int \<Rightarrow> float \<Rightarrow> tref result" where
  "transfer s source_account_id dest_account_id amt =
     (let src = store_accounts s source_account_id;
          dst = store_accounts s dest_account_id;
          (t, s1) = Transaction_init s (next_tx_id s) src dst amt;
          s2 = s1\<lparr>next_tx_id := next_tx_id s1 + 1\<rparr>
      in case process s2 t of
           (Inl e, s3) \<Rightarrow> (Inl e, s3)
         | (Inr success, s3) \<Rightarrow>
             transfer_notify (save_transaction s3 t) src dst amt success t)"

subsection \<open>The driver \<open>main.py\<close>\<close>

text \<open>
  The state before any object exists. The unused cells of the tables hold blank objects;
  no function of the program reads a cell before the constructor has filled it.
\<close>

definition empty_state :: state where
  "empty_state =
     \<lparr>user_objs = (\<lambda>_. \<lparr>user_id = 0, name = [], accounts = []\<rparr>),
      account_objs = (\<lambda>_. \<lparr>account_id = 0, owner = 0, balance = 0, transactions = []\<rparr>),
      tx_objs = (\<lambda>_. \<lparr>tx_id = 0, source = None, destination = None, amount = 0,
                         status = PENDING\<rparr>),
      next_ref = 0,
      store_users = Map.empty,
      store_accounts = Map.empty,
      store_transactions = Map.empty,
      next_tx_id = 0,
      notified = []\<rparr>"

text \<open>
  \<open>seed_data\<close>: Alice and Bob, the accounts 101 (500.0) and 102 (150.0) of Alice and 201
  (300.0) of Bob, all saved to the database. The objects get the references 0 to 4 in
  the order of construction.
\<close>

definition seed_data :: "state \<Rightarrow> state" where
  "seed_data s =
     (let (alice, s) = User_init s 1 ''Alice'';
          (bob, s) = User_init s 2 ''Bob'';
          (a1, s) = Account_init s 101 alice (fl 500);
          (a2, s) = Account_init s 102 alice (fl 150);
          (b1, s) = Account_init s 201 bob (fl 300);
          s = save_user s alice;
          s = save_user s bob;
          s = save_account s a1;
          s = save_account s a2;
          s = save_account s b1
      in s)"

text \<open>
  \<open>main\<close> up to the construction of the \<open>BankingService\<close>, then its two transfers:
  \<open>bank.transfer(101, 201, 120.0)\<close> and \<open>bank.transfer(102, 201, 500.0)\<close>.
\<close>

definition main_state :: state where
  "main_state = BankingService_init (seed_data empty_state)"

definition main_tx1 :: "tref result" where
  "main_tx1 = transfer main_state 101 201 (fl 120)"

definition main_tx2 :: "tref result" where
  "main_tx2 = transfer (snd main_tx1) 102 201 (fl 500)"

subsection \<open>Two further scenarios\<close>

text \<open>
  A pending transaction of \<open>1.0\<close> from an account holding \<open>5.0\<close> to an account holding
  \<open>1e16\<close>. The objects get the references 0 (the user), 1 and 2 (the accounts) and 3
  (the transaction).
\<close>

definition large_balance_state :: state where
  "large_balance_state =
     (let (u, s) = User_init empty_state 1 ''Alice'';
          (a, s) = Account_init s 1 u (fl 5);
          (b, s) = Account_init s 2 u (fl 10000000000000000);
          (t, s) = Transaction_init s 1 (Some a) (Some b) (fl 1)
      in s)"

text \<open>
  A database with one account, id 7, holding \<open>0.9\<close>, and a fresh \<open>BankingService\<close>. The
  user is object 0 and the account object 1.
\<close>

definition single_account_state :: state where
  "single_account_state =
     (let (u, s) = User_init empty_state 1 ''Alice'';
          (a, s) = Account_init s 7 u (fl (9 / 10));
          s = save_user s u;
          s = save_account s a
      in BankingService_init s)"

subsection \<open>Sequences of calls\<close>

text \<open>
  The calls a client can make on the objects, and their effect on the state. A call that
  raises leaves the state as it was at the raise.
\<close>

datatype op =
  CreateAccount int uref float
  | SaveAccount aref
  | Deposit aref float
  | Withdraw aref float
  | NewTransaction int "aref option" "aref option" float
  | Process tref
  | Transfer int int float

fun exec :: "state \<Rightarrow> op \<Rightarrow> state" where
  "exec s (CreateAccount aid ow b) = snd (Account_init s aid ow b)"
| "exec s (SaveAccount a) = save_account s a"
| "exec s (Deposit a amt) = snd (deposit s a amt)"
| "exec s (Withdraw a amt) = snd (withdraw s a amt)"
| "exec s (NewTransaction tid src dst amt) = snd (Transaction_init s tid src dst amt)"
| "exec s (Process t) = snd (process s t)"
| "exec s (Transfer sid did amt) = snd (transfer s sid did amt)"

definition run :: "state \<Rightarrow> op list \<Rightarrow> state" where
  "run s ops = foldl exec s ops"

text \<open>
  A call is admissible when an account is created with a balance that satisfies
  \<open>balance >= 0\<close> and every amount passed in is finite (neither NaN nor an infinity).
\<close>

fun admissible :: "op \<Rightarrow> bool" where
  "admissible (CreateAccount aid ow b) = (0 \<le> b)"
| "admissible (SaveAccount a) = True"
| "admissible (Deposit a amt) = is_finite amt"
| "admissible (Withdraw a amt) = is_finite amt"
| "admissible (NewTransaction tid src dst amt) = is_finite amt"
| "admissible (Process t) = True"
| "admissible (Transfer sid did amt) = is_finite amt"

text \<open>
  Every account satisfies \<open>balance >= 0\<close> (so no balance is NaN), and every transaction
  object has a finite amount.
\<close>

definition non_negative :: "state \<Rightarrow> bool" where
  "non_negative s = (\<forall>a. 0 \<le> balance (account_objs s a))"

definition finite_amounts :: "state \<Rightarrow> bool" where
  "finite_amounts s = (\<forall>t. is_finite (amount (tx_objs s t)))"

text \<open>
  A sequence of calls to \<open>transfer\<close> on the one \<open>BankingService\<close> of the state, and the
  \<open>Transaction\<close> objects constructed between two states, oldest first (\<open>transfer\<close>
  constructs no other object).
\<close>

definition transfers :: "state \<Rightarrow> (int \<times> int \<times> float) list \<Rightarrow> state" where
  "transfers s calls = foldl (\<lambda>s (sid, did, amt). snd (transfer s sid did amt)) s calls"

definition constructed :: "state \<Rightarrow> state \<Rightarrow> transaction list" where
  "constructed s s' = map (tx_objs s') [next_ref s ..< next_ref s']"

section \<open>Auxiliary facts\<close>

subsection \<open>Comparisons and rounding of floats\<close>

lemma float_le_simps [simp]:
  "Finite a \<le> Finite b \<longleftrightarrow> a \<le> b"
  "Finite a \<le> NegZero \<longleftrightarrow> a \<le> 0"
  "NegZero \<le> Finite b \<longleftrightarrow> 0 \<le> b"
  "NegZero \<le> NegZero"
  "Finite a \<le> PInf" "NegZero \<le> PInf" "PInf \<le> PInf" "NInf \<le> PInf"
  "NInf \<le> Finite b" "NInf \<le> NegZero" "NInf \<le> NInf"
  "\<not> PInf \<le> Finite b" "\<not> PInf \<le> NegZero" "\<not> PInf \<le> NInf"
  "\<not> Finite a \<le> NInf" "\<not> NegZero \<le> NInf"
  "\<not> NaN \<le> x" "\<not> x \<le> NaN"
  by (simp_all add: less_eq_float_def is_finite_def valof_def)

lemma float_less_simps [simp]:
  "Finite a < Finite b \<longleftrightarrow> a < b"
  "Finite a < NegZero \<longleftrightarrow> a < 0"
  "NegZero < Finite b \<longleftrightarrow> 0 < b"
  "\<not> NegZero < NegZero"
  "Finite a < PInf" "NegZero < PInf" "\<not> PInf < x" "NInf < PInf"
  "NInf < Finite b" "NInf < NegZero" "\<not> x < NInf"
  "\<not> NaN < x" "\<not> x < NaN"
  by (cases x; auto simp: less_float_def)+

text \<open>
  The two facts about the order that the guards of \<open>withdraw\<close> and \<open>deposit\<close> need after
  \<open>validate\<close> has passed. Both hold for every float, NaN included.
\<close>

lemma float_pos_not_le: "0 < x \<Longrightarrow> \<not> x \<le> (0::float)"
  by (simp add: less_float_def)

lemma float_le_not_less: "x \<le> y \<Longrightarrow> \<not> y < (x::float)"
  by (simp add: less_float_def)

lemma pow2_pos: "0 < pow2 k"
  by (simp add: pow2_def)

lemma round_even_nonneg: "0 \<le> q \<Longrightarrow> 0 \<le> round_even q"
  by (simp add: round_even_def Let_def)

lemma rounded_nonneg: "0 < r \<Longrightarrow> 0 \<le> rat_of_int (round_even (r / pow2 k)) * pow2 k"
  using pow2_pos [of k] round_even_nonneg [of "r / pow2 k"] by simp

text \<open>Rounding never turns a non-negative number into a negative one.\<close>

lemma round_double_nonneg: "0 \<le> r \<Longrightarrow> 0 \<le> round_double r"
  by (cases "r = 0") (simp_all add: round_double_def Let_def zero_float_def rounded_nonneg)

text \<open>
  Two checks of the rounding itself. The exponent is the right one: \<open>ilog2 r\<close> is the
  integer \<open>e\<close> with \<open>pow2 e \<le> r < pow2 (e + 1)\<close>. And a finite result of \<open>round_double\<close>
  is a multiple of the spacing at most half a spacing away from the exact value.
\<close>

lemma pow2_powi: "pow2 k = 2 powi k"
  by (simp add: pow2_def power_int_def power_inverse [symmetric] inverse_eq_divide power_one_over)

lemma pow2_diff: "pow2 (a - b) = pow2 a / pow2 b"
  by (simp add: pow2_powi power_int_diff)

lemma pow2_nat: "0 \<le> k \<Longrightarrow> pow2 k = 2 ^ nat k"
  by (simp add: pow2_def)

lemma bitlen_pow2_bounds:
  assumes "0 < p"
  shows "pow2 (bitlen p - 1) \<le> rat_of_int p \<and> rat_of_int p < pow2 (bitlen p)"
proof -
  have "bitlen p \<noteq> 0" using assms by (simp add: bitlen_eq_zero_iff)
  then have b1: "1 \<le> bitlen p" using bitlen_nonneg [of p] by linarith
  from bitlen_bounds [OF assms]
  have "(2::int) ^ nat (bitlen p - 1) \<le> p" "p < 2 ^ nat (bitlen p)" by simp_all
  then have "rat_of_int (2 ^ nat (bitlen p - 1)) \<le> rat_of_int p"
    "rat_of_int p < rat_of_int (2 ^ nat (bitlen p))"
    by (simp_all only: of_int_le_iff of_int_less_iff)
  then show ?thesis using b1 by (simp add: pow2_nat)
qed

lemma ilog2_bounds:
  assumes "0 < r"
  shows "pow2 (ilog2 r) \<le> r \<and> r < pow2 (ilog2 r + 1)"
proof -
  obtain p q where pq: "quotient_of r = (p, q)" by (cases "quotient_of r")
  have q: "0 < q" using pq quotient_of_denom_pos by blast
  have r: "r = of_int p / of_int q" using pq by (rule quotient_of_div)
  have p: "0 < p" using assms q r by (simp add: zero_less_divide_iff)
  define bp where "bp = bitlen p"
  define bq where "bq = bitlen q"
  have pb: "pow2 (bp - 1) \<le> of_int p" "of_int p < pow2 bp"
    using bitlen_pow2_bounds [OF p] by (simp_all add: bp_def)
  have qb: "pow2 (bq - 1) \<le> of_int q" "of_int q < pow2 bq"
    using bitlen_pow2_bounds [OF q] by (simp_all add: bq_def)
  have qpos: "(0::rat) < of_int q" and ppos: "(0::rat) < of_int p" using p q by simp_all
  have e1: "pow2 (bp - bq - 1) = pow2 (bp - 1) / pow2 bq"
    using pow2_diff [of "bp - 1" bq] by (simp add: algebra_simps)
  have e2: "pow2 (bp - bq + 1) = pow2 bp / pow2 (bq - 1)"
    using pow2_diff [of bp "bq - 1"] by (simp add: algebra_simps)
  have "pow2 (bp - 1) / pow2 bq \<le> of_int p / pow2 bq"
    using pb(1) pow2_pos [of bq] by (simp add: divide_right_mono)
  also have "\<dots> < of_int p / of_int q"
    using qb(2) qpos ppos by (simp add: divide_strict_left_mono)
  finally have lo: "pow2 (bp - bq - 1) < r" by (simp add: r e1)
  have "of_int p / of_int q \<le> of_int p / pow2 (bq - 1)"
    using qb(1) ppos pow2_pos [of "bq - 1"] by (simp add: divide_left_mono)
  also have "\<dots> < pow2 bp / pow2 (bq - 1)"
    using pb(2) pow2_pos [of "bq - 1"] by (simp add: divide_strict_right_mono)
  finally have hi: "r < pow2 (bp - bq + 1)" by (simp add: r e2)
  have il: "ilog2 r = (if pow2 (bp - bq) \<le> r then bp - bq else bp - bq - 1)"
    by (simp add: ilog2_def pq Let_def bp_def bq_def)
  show ?thesis
  proof (cases "pow2 (bp - bq) \<le> r")
    case True
    then show ?thesis using hi by (simp add: il)
  next
    case False
    then have "r < pow2 (bp - bq)" by simp
    then show ?thesis using lo by (simp add: il)
  qed
qed

lemma round_even_close: "\<bar>q - rat_of_int (round_even q)\<bar> \<le> 1 / 2"
proof -
  have "rat_of_int \<lfloor>q\<rfloor> \<le> q" "q < rat_of_int \<lfloor>q\<rfloor> + 1" by linarith+
  then show ?thesis by (auto simp: round_even_def Let_def abs_le_iff)
qed

lemma round_double_close:
  assumes "round_double r = Finite v"
  shows "\<bar>r - v\<bar> \<le> pow2 (max (ilog2 \<bar>r\<bar>) (- 1022) - 52) / 2"
proof (cases "r = 0")
  case True
  then show ?thesis using assms pow2_pos [of "max (ilog2 \<bar>r\<bar>) (- 1022) - 52"]
    by (simp add: round_double_def)
next
  case False
  define k where "k = max (ilog2 \<bar>r\<bar>) (- 1022) - 52"
  have kp: "0 < pow2 k" by (rule pow2_pos)
  have v: "v = rat_of_int (round_even (r / pow2 k)) * pow2 k"
    using assms False
    by (auto simp: round_double_def Let_def k_def split: if_splits)
  have "\<bar>r / pow2 k - rat_of_int (round_even (r / pow2 k))\<bar> \<le> 1 / 2"
    by (rule round_even_close)
  then have "\<bar>r / pow2 k - rat_of_int (round_even (r / pow2 k))\<bar> * pow2 k \<le> 1 / 2 * pow2 k"
    using kp by (simp add: mult_right_mono)
  moreover have "\<bar>r / pow2 k - rat_of_int (round_even (r / pow2 k))\<bar> * pow2 k = \<bar>r - v\<bar>"
  proof -
    have "\<bar>r / pow2 k - rat_of_int (round_even (r / pow2 k))\<bar> * pow2 k
        = \<bar>(r / pow2 k - rat_of_int (round_even (r / pow2 k))) * pow2 k\<bar>"
      using kp by (simp add: abs_mult)
    also have "(r / pow2 k - rat_of_int (round_even (r / pow2 k))) * pow2 k = r - v"
      using kp by (simp add: v left_diff_distrib)
    finally show ?thesis .
  qed
  ultimately show ?thesis by (simp add: k_def)
qed

lemma nonneg_cases:
  assumes "(0::float) \<le> b"
  obtains (inf) "b = PInf" | (fin) r where "b = Finite r" "0 \<le> r" | (nz) "b = NegZero"
  using assms
  by (cases b) (auto simp: zero_float_def)

lemma positive_finite:
  assumes "is_finite amt" and "\<not> amt \<le> (0::float)"
  obtains r where "amt = Finite r" "0 < r"
  using assms
  by (cases amt) (auto simp: zero_float_def is_finite_def)

lemma add_non_negative:
  assumes "(0::float) \<le> b" and "is_finite amt" and "\<not> amt \<le> 0"
  shows "0 \<le> b + amt"
proof -
  obtain r where amt: "amt = Finite r" "0 < r" using assms(2,3) by (rule positive_finite)
  from assms(1) show ?thesis
  proof (cases b rule: nonneg_cases)
    case inf
    then show ?thesis by (simp add: amt plus_float_def zero_float_def)
  next
    case (fin q)
    then have "b + amt = round_double (q + r)" by (simp add: amt plus_float_def valof_def)
    then show ?thesis using fin amt round_double_nonneg [of "q + r"] by simp
  next
    case nz
    then have "b + amt = round_double r" by (simp add: amt plus_float_def valof_def)
    then show ?thesis using amt round_double_nonneg [of r] by simp
  qed
qed

lemma sub_non_negative:
  assumes "(0::float) \<le> b" and "is_finite amt" and "\<not> amt \<le> 0" and "\<not> b < amt"
  shows "0 \<le> b - amt"
proof -
  obtain r where amt: "amt = Finite r" "0 < r" using assms(2,3) by (rule positive_finite)
  have neg: "fneg amt = Finite (- r)" using amt by (simp add: fneg_def)
  from assms(1) show ?thesis
  proof (cases b rule: nonneg_cases)
    case inf
    then show ?thesis by (simp add: neg minus_float_def plus_float_def zero_float_def)
  next
    case (fin q)
    then have "r \<le> q" using assms(4) amt by simp
    moreover have "b - amt = round_double (q - r)"
      using fin by (simp add: neg minus_float_def plus_float_def valof_def)
    ultimately show ?thesis using round_double_nonneg [of "q - r"] by simp
  next
    case nz
    then have False using assms(4) amt by simp
    then show ?thesis ..
  qed
qed

lemma add_nn:
  assumes "(0::float) \<le> b" and "is_finite amt" and "0 < amt"
  shows "0 \<le> b + amt"
  using assms by (intro add_non_negative float_pos_not_le)

lemma sub_nn:
  assumes "(0::float) \<le> b" and "is_finite amt" and "0 < amt" and "amt \<le> b"
  shows "0 \<le> b - amt"
  using assms by (intro sub_non_negative float_pos_not_le float_le_not_less)

lemma valof_fneg: "valof (fneg y) = - valof y"
  by (cases y) (simp_all add: fneg_def valof_def)

lemma is_finite_fneg: "is_finite (fneg y) = is_finite y"
  by (cases y) (simp_all add: fneg_def is_finite_def)

text \<open>
  When the exact sum or difference of two finite floats is representable, the operation
  returns it unrounded.
\<close>

lemma add_exact:
  assumes "is_finite x" and "is_finite y" and "representable (valof x + valof y)"
  shows "is_finite (x + y) \<and> valof (x + y) = valof x + valof y"
  using assms
  by (cases x; cases y) (simp_all add: plus_float_def is_finite_def valof_def representable_def)

lemma sub_exact:
  assumes "is_finite x" and "is_finite y" and "representable (valof x - valof y)"
  shows "is_finite (x - y) \<and> valof (x - y) = valof x - valof y"
  using add_exact [of x "fneg y"] assms
  by (simp add: minus_float_def valof_fneg is_finite_fneg)

lemma finite_between:
  assumes "(0::float) < x" and "x \<le> y" and "is_finite y"
  shows "is_finite x"
  using assms
  by (cases x; cases y) (simp_all add: zero_float_def is_finite_def)

lemma add_back_exact:
  assumes "(0::float) < amt" and "amt \<le> b" and "is_finite b"
    and "representable (valof b)" and "representable (valof b - valof amt)"
  shows "(b - amt) + amt = b"
proof -
  have "is_finite amt" using assms(1,2,3) by (rule finite_between)
  then obtain va where amt: "amt = Finite va" "0 < va"
    using assms(1) by (cases amt) (simp_all add: zero_float_def is_finite_def)
  obtain vb where b: "b = Finite vb" "va \<le> vb"
    using assms(2,3) amt by (cases b) (simp_all add: is_finite_def)
  have d: "Finite vb - Finite va = Finite (vb - va)"
    using assms(5) amt b
    by (simp add: minus_float_def plus_float_def fneg_def valof_def representable_def)
  have "Finite (vb - va) + Finite va = Finite vb"
    using assms(4) b by (simp add: plus_float_def valof_def representable_def)
  then show ?thesis by (simp add: amt b d)
qed

text \<open>
  The literals and the sums that occur in the scenarios, computed with the definitions
  above, then three well-known results of binary64 arithmetic as a check of the
  rounding: \<open>0.1 + 0.2\<close> is \<open>0.30000000000000004\<close> and not \<open>0.3\<close>, and \<open>inf - inf\<close> is NaN.
\<close>

lemma literals:
  "fl 500 = Finite 500" "fl 150 = Finite 150" "fl 300 = Finite 300" "fl 120 = Finite 120"
  "fl 1000 = Finite 1000" "fl 10 = Finite 10" "fl 25 = Finite 25" "fl 100 = Finite 100"
  "fl (- 5) = Finite (- 5)" "fl 5 = Finite 5" "fl 1 = Finite 1"
  "fl 10000000000000000 = Finite 10000000000000000"
  "fl (9 / 10) = Finite (8106479329266893 / 9007199254740992)"
  "fl (1 / 5) = Finite (3602879701896397 / 18014398509481984)"
  by code_simp+

lemma sums:
  "Finite 500 - Finite 120 = Finite 380"
  "Finite 300 + Finite 120 = Finite 420"
  "Finite 380 - Finite 120 = Finite 260"
  "Finite 420 + Finite 120 = Finite 540"
  "Finite 380 + Finite 120 = Finite 500"
  "Finite 5 - Finite 1 = Finite 4"
  "Finite 10000000000000000 + Finite 1 = Finite 10000000000000000"
  "Finite (8106479329266893 / 9007199254740992) - Finite (3602879701896397 / 18014398509481984)
     = Finite (3152519739159347 / 4503599627370496)"
  "Finite (3152519739159347 / 4503599627370496) + Finite (3602879701896397 / 18014398509481984)
     = Finite (2026619832316723 / 2251799813685248)"
  by code_simp+

lemma representables:
  "representable 500" "representable 380" "representable 420"
  by code_simp+

lemma python_examples:
  "fl (1 / 10) + fl (2 / 10) = fl (30000000000000004 / 100000000000000000)"
  "fl (1 / 10) + fl (2 / 10) \<noteq> fl (3 / 10)"
  "PInf - PInf = NaN"
  by code_simp+

subsection \<open>Unfolding and evaluation\<close>

lemmas model_defs = User_init_def add_account_def Account_init_def deposit_def withdraw_def
  add_transaction_def get_balance_def Transaction_init_def validate_def process_try_def
  process_def save_user_def save_account_def save_transaction_def notify_def
  BankingService_init_def transfer_notify_def transfer_def upd_user_def upd_account_def upd_tx_def

lemmas eval_defs = main_state_def seed_data_def empty_state_def model_defs Let_def
  main_tx1_def main_tx2_def large_balance_state_def single_account_state_def
  literals sums zero_float_def

lemma main_state_facts:
  "store_accounts main_state 101 = Some 2" "store_accounts main_state 102 = Some 3"
  "store_accounts main_state 201 = Some 4" "store_accounts main_state 999 = None"
  "next_ref main_state = 5" "next_tx_id main_state = 1"
  "balance (account_objs main_state 2) = Finite 500"
  "balance (account_objs main_state 3) = Finite 150"
  "balance (account_objs main_state 4) = Finite 300"
  by (simp_all add: eval_defs)

lemma non_negative_main_state: "non_negative main_state" "finite_amounts main_state"
  by (simp_all add: non_negative_def finite_amounts_def is_finite_def eval_defs)

subsection \<open>The cases of \<open>validate\<close> and \<open>process\<close>\<close>

lemma validate_state: "snd (validate s t) = s"
  by (simp add: validate_def split: option.splits)

lemma validate_Some:
  "source (tx_objs s t) = Some a \<Longrightarrow>
   validate s t = (Inr (0 < amount (tx_objs s t) \<and> amount (tx_objs s t) \<le> balance (account_objs s a)), s)"
  by (simp add: validate_def get_balance_def)

lemma process_fail:
  assumes "source (tx_objs s t) = Some a"
    and "\<not> (0 < amount (tx_objs s t) \<and> amount (tx_objs s t) \<le> balance (account_objs s a))"
  shows "process s t = (Inr False, upd_tx s t (\<lambda>tx. tx\<lparr>status := FAILED\<rparr>))"
  using assms by (simp add: process_def validate_Some)

lemma process_nonpositive:
  assumes "\<not> 0 < amount (tx_objs s t)"
  shows "process s t = (Inr False, upd_tx s t (\<lambda>tx. tx\<lparr>status := FAILED\<rparr>))"
  using assms by (simp add: process_def validate_def)

lemma process_no_source:
  assumes "source (tx_objs s t) = None" and "0 < amount (tx_objs s t)"
  shows "process s t = (Inl (AttributeError ''get_balance''), s)"
  using assms by (simp add: process_def validate_def)

lemma process_ok:
  assumes "source (tx_objs s t) = Some a" and "destination (tx_objs s t) = Some b"
    and "0 < amount (tx_objs s t)" and "amount (tx_objs s t) \<le> balance (account_objs s a)"
  shows "process s t =
     (Inr True,
      upd_tx (add_transaction (add_transaction
         (upd_account (upd_account s a (\<lambda>acc. acc\<lparr>balance := balance acc - amount (tx_objs s t)\<rparr>))
            b (\<lambda>acc. acc\<lparr>balance := balance acc + amount (tx_objs s t)\<rparr>)) a t) b t)
        t (\<lambda>tx. tx\<lparr>status := COMPLETED\<rparr>))"
  using assms
  by (simp add: process_def validate_Some process_try_def withdraw_def deposit_def
      upd_account_def Let_def float_pos_not_le float_le_not_less)

lemma process_no_destination:
  assumes "source (tx_objs s t) = Some a" and "destination (tx_objs s t) = None"
    and "0 < amount (tx_objs s t)" and "amount (tx_objs s t) \<le> balance (account_objs s a)"
  shows "process s t =
     (Inr False,
      upd_tx (upd_account s a (\<lambda>acc. acc\<lparr>balance := balance acc - amount (tx_objs s t)\<rparr>))
        t (\<lambda>tx. tx\<lparr>status := FAILED\<rparr>))"
  using assms
  by (simp add: process_def validate_Some process_try_def withdraw_def upd_account_def
      float_pos_not_le float_le_not_less)

text \<open>
  The five ways a call of \<open>process\<close> can go: an amount that is not positive (NaN
  included); a positive amount with no source; a source that cannot cover the amount; a
  covered amount with no destination, where the withdrawal stays applied; and the
  completed transfer.
\<close>

lemma process_cases:
  obtains
    (nonpos) "\<not> 0 < amount (tx_objs s t)"
      "process s t = (Inr False, upd_tx s t (\<lambda>tx. tx\<lparr>status := FAILED\<rparr>))"
  | (nosrc) "source (tx_objs s t) = None" "0 < amount (tx_objs s t)"
      "process s t = (Inl (AttributeError ''get_balance''), s)"
  | (short) a where "source (tx_objs s t) = Some a"
      "process s t = (Inr False, upd_tx s t (\<lambda>tx. tx\<lparr>status := FAILED\<rparr>))"
  | (nodst) a where "source (tx_objs s t) = Some a" "destination (tx_objs s t) = None"
      "0 < amount (tx_objs s t)" "amount (tx_objs s t) \<le> balance (account_objs s a)"
      "process s t =
        (Inr False,
         upd_tx (upd_account s a (\<lambda>acc. acc\<lparr>balance := balance acc - amount (tx_objs s t)\<rparr>))
           t (\<lambda>tx. tx\<lparr>status := FAILED\<rparr>))"
  | (ok) a b where "source (tx_objs s t) = Some a" "destination (tx_objs s t) = Some b"
      "0 < amount (tx_objs s t)" "amount (tx_objs s t) \<le> balance (account_objs s a)"
      "process s t =
        (Inr True,
         upd_tx (add_transaction (add_transaction
           (upd_account (upd_account s a (\<lambda>acc. acc\<lparr>balance := balance acc - amount (tx_objs s t)\<rparr>))
             b (\<lambda>acc. acc\<lparr>balance := balance acc + amount (tx_objs s t)\<rparr>)) a t) b t)
          t (\<lambda>tx. tx\<lparr>status := COMPLETED\<rparr>))"
proof (cases "0 < amount (tx_objs s t)")
  case False
  then show ?thesis using nonpos process_nonpositive by blast
next
  case pos: True
  show ?thesis
  proof (cases "source (tx_objs s t)")
    case None
    then show ?thesis using nosrc process_no_source pos by simp
  next
    case (Some a)
    show ?thesis
    proof (cases "amount (tx_objs s t) \<le> balance (account_objs s a)")
      case False
      then show ?thesis using short Some process_fail by blast
    next
      case le: True
      show ?thesis
      proof (cases "destination (tx_objs s t)")
        case None
        then show ?thesis using nodst [OF Some] process_no_destination [OF Some None] pos le by simp
      next
        case (Some b)
        then show ?thesis
          using ok [OF \<open>source (tx_objs s t) = Some a\<close> Some]
            process_ok [OF \<open>source (tx_objs s t) = Some a\<close> Some] pos le by simp
      qed
    qed
  qed
qed

subsection \<open>Which parts of the state a call touches\<close>

lemma upd_simps [simp]:
  "account_objs (upd_tx s t f) = account_objs s"
  "tx_objs (upd_account s a g) = tx_objs s"
  "account_objs (upd_account s a g) = (account_objs s)(a := g (account_objs s a))"
  "tx_objs (upd_tx s t f) = (tx_objs s)(t := f (tx_objs s t))"
  "next_ref (upd_tx s t f) = next_ref s" "next_ref (upd_account s a g) = next_ref s"
  "next_tx_id (upd_tx s t f) = next_tx_id s" "next_tx_id (upd_account s a g) = next_tx_id s"
  "store_accounts (upd_tx s t f) = store_accounts s" "store_accounts (upd_account s a g) = store_accounts s"
  "store_transactions (upd_tx s t f) = store_transactions s"
  "store_transactions (upd_account s a g) = store_transactions s"
  "notified (upd_tx s t f) = notified s" "notified (upd_account s a g) = notified s"
  by (simp_all add: upd_tx_def upd_account_def)

lemma add_transaction_simps [simp]:
  "tx_objs (add_transaction s a t) = tx_objs s"
  "account_objs (add_transaction s a t) =
     (account_objs s)(a := (account_objs s a)\<lparr>transactions := transactions (account_objs s a) @ [t]\<rparr>)"
  "next_ref (add_transaction s a t) = next_ref s"
  "next_tx_id (add_transaction s a t) = next_tx_id s"
  "store_accounts (add_transaction s a t) = store_accounts s"
  "store_transactions (add_transaction s a t) = store_transactions s"
  "notified (add_transaction s a t) = notified s"
  by (simp_all add: add_transaction_def)

lemma save_notify_simps [simp]:
  "account_objs (save_transaction s t) = account_objs s"
  "tx_objs (save_transaction s t) = tx_objs s"
  "next_ref (save_transaction s t) = next_ref s"
  "next_tx_id (save_transaction s t) = next_tx_id s"
  "notified (save_transaction s t) = notified s"
  "store_accounts (save_transaction s t) = store_accounts s"
  "store_transactions (save_transaction s t) = (store_transactions s)(tx_id (tx_objs s t) \<mapsto> t)"
  "account_objs (notify s u m) = account_objs s"
  "tx_objs (notify s u m) = tx_objs s"
  "next_ref (notify s u m) = next_ref s"
  "next_tx_id (notify s u m) = next_tx_id s"
  "notified (notify s u m) = notified s @ [(u, m)]"
  "store_accounts (notify s u m) = store_accounts s"
  "store_transactions (notify s u m) = store_transactions s"
  by (simp_all add: save_transaction_def notify_def)

lemma process_frame:
  "next_ref (snd (process s t)) = next_ref s"
  "next_tx_id (snd (process s t)) = next_tx_id s"
  "store_accounts (snd (process s t)) = store_accounts s"
  "store_transactions (snd (process s t)) = store_transactions s"
  "notified (snd (process s t)) = notified s"
  "tx_id (tx_objs (snd (process s t)) r) = tx_id (tx_objs s r)"
  "source (tx_objs (snd (process s t)) r) = source (tx_objs s r)"
  "destination (tx_objs (snd (process s t)) r) = destination (tx_objs s r)"
  "amount (tx_objs (snd (process s t)) r) = amount (tx_objs s r)"
  "owner (account_objs (snd (process s t)) c) = owner (account_objs s c)"
  "account_id (account_objs (snd (process s t)) c) = account_id (account_objs s c)"
  by (cases s t rule: process_cases; simp)+

lemma process_invariant:
  assumes "non_negative s" and "finite_amounts s"
  shows "non_negative (snd (process s t)) \<and> finite_amounts (snd (process s t))"
proof -
  let ?amt = "amount (tx_objs s t)"
  have fin: "is_finite ?amt" using assms(2) by (simp add: finite_amounts_def)
  have nn: "0 \<le> balance (account_objs s c)" for c
    using assms(1) by (simp add: non_negative_def)
  have "non_negative (snd (process s t))"
  proof (cases s t rule: process_cases)
    case nonpos
    then show ?thesis using nn by (simp add: non_negative_def)
  next
    case nosrc
    then show ?thesis using assms(1) by simp
  next
    case (short a)
    then show ?thesis using nn by (simp add: non_negative_def)
  next
    case (nodst a)
    have "0 \<le> balance (account_objs s a) - ?amt"
      using nn fin nodst(3,4) by (rule sub_nn)
    then show ?thesis using nn nodst(5) by (simp add: non_negative_def)
  next
    case (ok a b)
    have d: "0 \<le> balance (account_objs s a) - ?amt"
      using nn fin ok(3,4) by (rule sub_nn)
    have e: "0 \<le> balance (account_objs s b) + ?amt"
      using nn fin ok(3) by (rule add_nn)
    have f: "0 \<le> (balance (account_objs s a) - ?amt) + ?amt"
      using d fin ok(3) by (rule add_nn)
    show ?thesis using nn d e f ok(5) by (simp add: non_negative_def)
  qed
  moreover have "finite_amounts (snd (process s t))"
    using assms(2) by (simp add: finite_amounts_def process_frame(9))
  ultimately show ?thesis ..
qed

text \<open>
  When both accounts of a transaction exist, a call of \<open>process\<close> that ends in
  \<open>FAILED\<close> has changed no account: the only failure left is a false \<open>validate\<close>.
\<close>

lemma failed_with_both_accounts:
  assumes "source (tx_objs s t) = Some a" and "destination (tx_objs s t) = Some b"
    and "process s t = (r, s')" and "status (tx_objs s' t) = FAILED"
  shows "r = Inr False \<and> account_objs s' = account_objs s"
  using assms
  by (cases s t rule: process_cases) auto

subsection \<open>\<open>transfer\<close>\<close>

lemma transfer_eq:
  "transfer s sid did amt =
     (case process
        (s\<lparr>tx_objs := (tx_objs s)
             (next_ref s := \<lparr>tx_id = next_tx_id s, source = store_accounts s sid,
                destination = store_accounts s did, amount = amt, status = PENDING\<rparr>),
           next_ref := Suc (next_ref s), next_tx_id := next_tx_id s + 1\<rparr>) (next_ref s) of
        (Inl e, s3) \<Rightarrow> (Inl e, s3)
      | (Inr success, s3) \<Rightarrow>
          transfer_notify (save_transaction s3 (next_ref s)) (store_accounts s sid)
            (store_accounts s did) amt success (next_ref s))"
  by (simp add: transfer_def Transaction_init_def Let_def)

lemma transfer_notify_frame:
  "account_objs (snd (transfer_notify s src dst amt ok t)) = account_objs s"
  "tx_objs (snd (transfer_notify s src dst amt ok t)) = tx_objs s"
  "next_ref (snd (transfer_notify s src dst amt ok t)) = next_ref s"
  "next_tx_id (snd (transfer_notify s src dst amt ok t)) = next_tx_id s"
  "store_transactions (snd (transfer_notify s src dst amt ok t)) = store_transactions s"
  by (simp_all add: transfer_notify_def Let_def split: option.splits)

lemma transfer_frame:
  fixes s sid did amt
  defines "s2 \<equiv> s\<lparr>tx_objs := (tx_objs s)
             (next_ref s := \<lparr>tx_id = next_tx_id s, source = store_accounts s sid,
                destination = store_accounts s did, amount = amt, status = PENDING\<rparr>),
           next_ref := Suc (next_ref s), next_tx_id := next_tx_id s + 1\<rparr>"
  shows "account_objs (snd (transfer s sid did amt)) = account_objs (snd (process s2 (next_ref s)))"
    and "tx_objs (snd (transfer s sid did amt)) = tx_objs (snd (process s2 (next_ref s)))"
    and "next_ref (snd (transfer s sid did amt)) = Suc (next_ref s)"
    and "next_tx_id (snd (transfer s sid did amt)) = next_tx_id s + 1"
proof -
  obtain r3 s3 where p: "process s2 (next_ref s) = (r3, s3)"
    by (cases "process s2 (next_ref s)")
  have f: "next_ref s3 = Suc (next_ref s)" "next_tx_id s3 = next_tx_id s + 1"
    using process_frame(1,2) [of s2 "next_ref s"] by (simp_all add: p) (simp_all add: s2_def)
  have t: "transfer s sid did amt =
     (case r3 of Inl e \<Rightarrow> (Inl e, s3)
      | Inr success \<Rightarrow> transfer_notify (save_transaction s3 (next_ref s)) (store_accounts s sid)
            (store_accounts s did) amt success (next_ref s))"
    using p by (simp add: transfer_eq s2_def)
  show "account_objs (snd (transfer s sid did amt)) = account_objs (snd (process s2 (next_ref s)))"
    and "tx_objs (snd (transfer s sid did amt)) = tx_objs (snd (process s2 (next_ref s)))"
    and "next_ref (snd (transfer s sid did amt)) = Suc (next_ref s)"
    and "next_tx_id (snd (transfer s sid did amt)) = next_tx_id s + 1"
    using f by (simp_all add: t p transfer_notify_frame split: sum.splits)
qed

lemma transfer_tx_id:
  "tx_id (tx_objs (snd (transfer s sid did amt)) r) =
     (if r = next_ref s then next_tx_id s else tx_id (tx_objs s r))"
  by (simp add: transfer_frame(2) process_frame(6))

lemma transfer_invariant:
  assumes "non_negative s" and "finite_amounts s" and "is_finite amt"
  shows "non_negative (snd (transfer s sid did amt))
       \<and> finite_amounts (snd (transfer s sid did amt))"
proof -
  let ?s2 = "s\<lparr>tx_objs := (tx_objs s)
             (next_ref s := \<lparr>tx_id = next_tx_id s, source = store_accounts s sid,
                destination = store_accounts s did, amount = amt, status = PENDING\<rparr>),
           next_ref := Suc (next_ref s), next_tx_id := next_tx_id s + 1\<rparr>"
  have "non_negative ?s2" using assms(1) by (simp add: non_negative_def)
  moreover have "finite_amounts ?s2" using assms(2,3) by (simp add: finite_amounts_def)
  ultimately have "non_negative (snd (process ?s2 (next_ref s)))
      \<and> finite_amounts (snd (process ?s2 (next_ref s)))"
    by (rule process_invariant)
  then show ?thesis
    by (simp add: non_negative_def finite_amounts_def transfer_frame(1,2))
qed

subsection \<open>Sequences of calls\<close>

lemma exec_invariant:
  assumes "non_negative s" and "finite_amounts s" and "admissible x"
  shows "non_negative (exec s x) \<and> finite_amounts (exec s x)"
proof (cases x)
  case (CreateAccount aid ow b)
  with assms show ?thesis
    by (simp add: non_negative_def finite_amounts_def Account_init_def add_account_def
        upd_user_def Let_def)
next
  case (SaveAccount a)
  with assms show ?thesis by (simp add: non_negative_def finite_amounts_def save_account_def)
next
  case (Deposit a amt)
  with assms show ?thesis
    by (simp add: non_negative_def finite_amounts_def deposit_def add_non_negative)
next
  case (Withdraw a amt)
  with assms show ?thesis
    by (simp add: non_negative_def finite_amounts_def withdraw_def sub_non_negative)
next
  case (NewTransaction tid src dst amt)
  with assms show ?thesis by (simp add: non_negative_def finite_amounts_def Transaction_init_def)
next
  case (Process t)
  with assms show ?thesis by (simp add: process_invariant)
next
  case (Transfer sid did amt)
  with assms show ?thesis by (simp add: transfer_invariant)
qed

lemma run_invariant:
  "non_negative s \<Longrightarrow> finite_amounts s \<Longrightarrow> list_all admissible ops \<Longrightarrow>
   non_negative (run s ops) \<and> finite_amounts (run s ops)"
  unfolding run_def
  by (induction ops arbitrary: s) (simp_all add: exec_invariant)

lemma transfers_snoc:
  "transfers s (calls @ [(sid, did, amt)]) = snd (transfer (transfers s calls) sid did amt)"
  by (simp add: transfers_def)

lemma transfers_counters:
  "next_ref (transfers s calls) = next_ref s + length calls
   \<and> next_tx_id (transfers s calls) = next_tx_id s + int (length calls)"
proof (induction calls rule: rev_induct)
  case Nil
  show ?case by (simp add: transfers_def)
next
  case (snoc c calls)
  obtain sid did amt where c: "c = (sid, did, amt)" by (cases c)
  show ?case using snoc by (simp add: c transfers_snoc transfer_frame(3,4))
qed

lemma transfers_ids:
  "map (\<lambda>r. tx_id (tx_objs (transfers s calls) r)) [next_ref s ..< next_ref s + length calls]
     = map (\<lambda>k. next_tx_id s + int k) [0 ..< length calls]"
proof (induction calls rule: rev_induct)
  case Nil
  show ?case by simp
next
  case (snoc c calls)
  obtain sid did amt where c: "c = (sid, did, amt)" by (cases c)
  have cnt: "next_ref (transfers s calls) = next_ref s + length calls"
    "next_tx_id (transfers s calls) = next_tx_id s + int (length calls)"
    using transfers_counters [of s calls] by simp_all
  have old: "map (\<lambda>r. tx_id (tx_objs (transfers s (calls @ [c])) r)) [next_ref s ..< next_ref s + length calls]
      = map (\<lambda>r. tx_id (tx_objs (transfers s calls) r)) [next_ref s ..< next_ref s + length calls]"
    by (rule map_cong) (simp_all add: c transfers_snoc transfer_tx_id cnt)
  have new: "tx_id (tx_objs (transfers s (calls @ [c])) (next_ref s + length calls))
      = next_tx_id s + int (length calls)"
    by (simp add: c transfers_snoc transfer_tx_id cnt)
  show ?case using snoc old new by simp
qed

text \<open>
  Why the amounts are required to be finite. NaN passes the guard \<open>amount <= 0\<close> of
  \<open>deposit\<close> and leaves a NaN balance, for which \<open>balance >= 0\<close> is false; an infinite
  deposit followed by an infinite withdrawal passes all guards and leaves NaN as well.
\<close>

lemma non_finite_amounts_pass_the_guards:
  "fst (deposit s a NaN) = Inr ()"
  "balance (account_objs (snd (deposit s a NaN)) a) = NaN"
  "\<not> 0 \<le> NaN"
  "balance (account_objs s a) = Finite 500 \<Longrightarrow>
     fst (withdraw (snd (deposit s a PInf)) a PInf) = Inr ()
     \<and> balance (account_objs (snd (withdraw (snd (deposit s a PInf)) a PInf)) a) = NaN"
  by (simp_all add: deposit_def withdraw_def plus_float_def minus_float_def fneg_def
      zero_float_def upd_account_def)

section \<open>Properties\<close>

subsection \<open>Balances\<close>

text \<open>
  C1, as the code has it. The claim counts account creation among the operations that
  keep every balance non-negative, but the constructor stores any initial balance (see
  C9). What holds: from a state in which every account satisfies \<open>balance >= 0\<close> and
  every transaction has a finite amount, every sequence of account creations with an
  initial balance that satisfies \<open>balance >= 0\<close>, saves, deposits, withdrawals,
  transaction constructions, \<open>process\<close> calls and transfers, all with finite amounts,
  leaves \<open>balance >= 0\<close> true of every account (the theorem covers every prefix of the
  sequence, so this holds after each single operation); and a withdrawal with
  \<open>amount > balance\<close> raises with the state untouched.
\<close>

theorem balance_never_negative:
  "(non_negative s \<and> finite_amounts s \<and> list_all admissible ops \<longrightarrow> non_negative (run s ops))
   \<and> (balance (account_objs s a) < amt \<longrightarrow> (\<exists>e. withdraw s a amt = (Inl e, s)))"
  by (simp add: run_invariant withdraw_def)

text \<open>
  An instance on the accounts of \<open>main.py\<close>, with a completed transfer, a rejected
  withdrawal, a new account, a deposit, a transfer to an unknown account and a second
  \<open>process\<close> of the first transaction.
\<close>

theorem balance_never_negative_witness:
  "non_negative main_state \<and> finite_amounts main_state
   \<and> list_all admissible
        [Transfer 101 201 (fl 120), Withdraw 2 (fl 1000), CreateAccount 103 0 (fl 10),
         Deposit 3 (fl 25), Transfer 102 999 (fl 100), Process 5]
   \<and> non_negative (run main_state
        [Transfer 101 201 (fl 120), Withdraw 2 (fl 1000), CreateAccount 103 0 (fl 10),
         Deposit 3 (fl 25), Transfer 102 999 (fl 100), Process 5])
   \<and> balance (account_objs main_state 2) < fl 1000
   \<and> (\<exists>e. withdraw main_state 2 (fl 1000) = (Inl e, main_state))"
proof -
  have h: "non_negative main_state" "finite_amounts main_state"
    by (rule non_negative_main_state)+
  have a: "list_all admissible
        [Transfer 101 201 (fl 120), Withdraw 2 (fl 1000), CreateAccount 103 0 (fl 10),
         Deposit 3 (fl 25), Transfer 102 999 (fl 100), Process 5]"
    by (simp add: literals is_finite_def zero_float_def)
  have b: "balance (account_objs main_state 2) < fl 1000"
    by (simp add: main_state_facts literals)
  show ?thesis
    using h a b
      balance_never_negative [of main_state
        "[Transfer 101 201 (fl 120), Withdraw 2 (fl 1000), CreateAccount 103 0 (fl 10),
          Deposit 3 (fl 25), Transfer 102 999 (fl 100), Process 5]" 2 "fl 1000"]
    by simp
qed

text \<open>
  C1 as stated fails at account creation: \<open>Account(103, alice, -5.0)\<close> yields an account
  with a negative balance.
\<close>

theorem negative_initial_balance:
  "balance (account_objs (snd (Account_init main_state 103 0 (fl (- 5))))
      (fst (Account_init main_state 103 0 (fl (- 5))))) = Finite (- 5)
   \<and> Finite (- 5) < (0::float)
   \<and> \<not> (0::float) \<le> Finite (- 5)"
  by (simp add: eval_defs)

text \<open>
  C9. The constructor of \<open>Account\<close> does not validate the initial balance: for every
  balance, negative ones included, construction succeeds and the new account holds
  exactly that balance.
\<close>

theorem Account_init_keeps_any_balance:
  "balance (account_objs (snd (Account_init s aid ow b)) (fst (Account_init s aid ow b))) = b"
  by (simp add: Account_init_def add_account_def upd_user_def Let_def)

subsection \<open>\<open>validate\<close> and \<open>process\<close>\<close>

text \<open>
  C7. \<open>validate\<close> changes no state, so a second call gives the same answer, and for a
  transaction that has a source account it returns true exactly when the amount is
  positive and the source's balance is at least the amount.
\<close>

theorem validate_pure:
  "snd (validate s t) = s
   \<and> validate (snd (validate s t)) t = validate s t
   \<and> (source (tx_objs s t) = Some a \<longrightarrow>
        fst (validate s t)
          = Inr (0 < amount (tx_objs s t) \<and> amount (tx_objs s t) \<le> balance (account_objs s a)))"
  by (simp add: validate_state validate_Some)

text \<open>
  An instance: the first transaction of \<open>main.py\<close>, validated again after it completed
  (amount 120, source balance 380).
\<close>

theorem validate_pure_witness:
  "source (tx_objs (snd main_tx1) 5) = Some 2
   \<and> amount (tx_objs (snd main_tx1) 5) = Finite 120
   \<and> balance (account_objs (snd main_tx1) 2) = Finite 380
   \<and> fst (validate (snd main_tx1) 5) = Inr True
   \<and> snd (validate (snd main_tx1) 5) = snd main_tx1"
proof -
  have h: "source (tx_objs (snd main_tx1) 5) = Some 2" by (simp add: eval_defs)
  have v: "amount (tx_objs (snd main_tx1) 5) = Finite 120"
    "balance (account_objs (snd main_tx1) 2) = Finite 380"
    by (simp_all add: eval_defs)
  show ?thesis using h v validate_pure [of "snd main_tx1" 5 2] by (simp add: zero_float_def)
qed

text \<open>
  C2 at a transfer to an unknown destination: \<open>transfer(101, 999, 120.0)\<close> on the data
  of \<open>main.py\<close>. The lookup of 999 gives \<open>None\<close>, \<open>validate\<close> passes, the withdrawal
  is applied, \<open>None.deposit\<close> raises inside the \<open>try\<close>, and the handler sets
  \<open>FAILED\<close> without undoing the withdrawal: the transaction is \<open>FAILED\<close> and the
  source balance has gone from 500 to 380.
\<close>

theorem failed_transfer_keeps_withdrawal:
  "store_accounts main_state 101 = Some 2
   \<and> store_accounts main_state 999 = None
   \<and> balance (account_objs main_state 2) = Finite 500
   \<and> fst (transfer main_state 101 999 (fl 120)) = Inr 5
   \<and> source (tx_objs (snd (transfer main_state 101 999 (fl 120))) 5) = Some 2
   \<and> destination (tx_objs (snd (transfer main_state 101 999 (fl 120))) 5) = None
   \<and> status (tx_objs (snd (transfer main_state 101 999 (fl 120))) 5) = FAILED
   \<and> balance (account_objs (snd (transfer main_state 101 999 (fl 120))) 2) = Finite 380
   \<and> store_transactions (snd (transfer main_state 101 999 (fl 120))) 1 = Some 5
   \<and> notified (snd (transfer main_state 101 999 (fl 120))) = [(0, TransferFailed (Finite 120))]"
  by (simp add: eval_defs)

text \<open>
  C3, as the code has it. A transaction with a positive amount between two distinct
  existing accounts whose \<open>process\<close> ends in \<open>COMPLETED\<close> has set the source balance to
  the float difference \<open>balance - amount\<close> and the destination balance to the float sum
  \<open>balance + amount\<close>, each rounded to the nearest double. Whenever both balances are
  finite and the exact difference and the exact sum are representable, the new balances
  are finite, the source has decreased by exactly the amount, the destination has
  increased by exactly the amount, and the sum of the two balances is unchanged.
\<close>

theorem completed_moves_amount:
  assumes "source (tx_objs s t) = Some a" and "destination (tx_objs s t) = Some b"
    and "a \<noteq> b" and "0 < amount (tx_objs s t)"
    and "process s t = (r, s')" and "status (tx_objs s' t) = COMPLETED"
  shows "balance (account_objs s' a) = balance (account_objs s a) - amount (tx_objs s t)
       \<and> balance (account_objs s' b) = balance (account_objs s b) + amount (tx_objs s t)
       \<and> (is_finite (balance (account_objs s a)) \<and> is_finite (balance (account_objs s b))
          \<and> representable (valof (balance (account_objs s a)) - valof (amount (tx_objs s t)))
          \<and> representable (valof (balance (account_objs s b)) + valof (amount (tx_objs s t)))
          \<longrightarrow>
            is_finite (balance (account_objs s' a)) \<and> is_finite (balance (account_objs s' b))
          \<and> valof (balance (account_objs s' a))
              = valof (balance (account_objs s a)) - valof (amount (tx_objs s t))
          \<and> valof (balance (account_objs s' b))
              = valof (balance (account_objs s b)) + valof (amount (tx_objs s t))
          \<and> valof (balance (account_objs s' a)) + valof (balance (account_objs s' b))
              = valof (balance (account_objs s a)) + valof (balance (account_objs s b)))"
proof -
  let ?amt = "amount (tx_objs s t)"
  have ok: "?amt \<le> balance (account_objs s a)
      \<and> balance (account_objs s' a) = balance (account_objs s a) - ?amt
      \<and> balance (account_objs s' b) = balance (account_objs s b) + ?amt"
    using assms by (cases s t rule: process_cases) auto
  have "is_finite (balance (account_objs s' a)) \<and> is_finite (balance (account_objs s' b))
          \<and> valof (balance (account_objs s' a)) = valof (balance (account_objs s a)) - valof ?amt
          \<and> valof (balance (account_objs s' b)) = valof (balance (account_objs s b)) + valof ?amt
          \<and> valof (balance (account_objs s' a)) + valof (balance (account_objs s' b))
              = valof (balance (account_objs s a)) + valof (balance (account_objs s b))"
    if fa: "is_finite (balance (account_objs s a))"
      and fb: "is_finite (balance (account_objs s b))"
      and ra: "representable (valof (balance (account_objs s a)) - valof ?amt)"
      and rb: "representable (valof (balance (account_objs s b)) + valof ?amt)"
  proof -
    have fin: "is_finite ?amt" using assms(4) ok fa by (blast intro: finite_between)
    show ?thesis
      using sub_exact [OF fa fin ra] add_exact [OF fb fin rb] ok by simp
  qed
  then show ?thesis using ok by blast
qed

text \<open>An instance: 120 from account 101 (500) to account 201 (300) gives 380 and 420.\<close>

theorem completed_moves_amount_witness:
  "source (tx_objs (snd (Transaction_init main_state 1 (Some 2) (Some 4) (fl 120))) 5) = Some 2
   \<and> destination (tx_objs (snd (Transaction_init main_state 1 (Some 2) (Some 4) (fl 120))) 5)
        = Some 4
   \<and> status (tx_objs (snd (process (snd (Transaction_init main_state 1 (Some 2) (Some 4) (fl 120))) 5)) 5)
        = COMPLETED
   \<and> balance (account_objs (snd (process (snd (Transaction_init main_state 1 (Some 2) (Some 4) (fl 120))) 5)) 2)
        = Finite 380
   \<and> balance (account_objs (snd (process (snd (Transaction_init main_state 1 (Some 2) (Some 4) (fl 120))) 5)) 4)
        = Finite 420
   \<and> representable (500 - 120) \<and> representable (300 + 120)
   \<and> valof (balance (account_objs (snd (process (snd (Transaction_init main_state 1 (Some 2) (Some 4) (fl 120))) 5)) 2))
      + valof (balance (account_objs (snd (process (snd (Transaction_init main_state 1 (Some 2) (Some 4) (fl 120))) 5)) 4))
        = 500 + 300"
proof -
  let ?s = "snd (Transaction_init main_state 1 (Some 2) (Some 4) (fl 120))"
  have h: "source (tx_objs ?s 5) = Some 2" "destination (tx_objs ?s 5) = Some 4"
    "(2::nat) \<noteq> 4" "0 < amount (tx_objs ?s 5)"
    "process ?s 5 = (fst (process ?s 5), snd (process ?s 5))"
    "status (tx_objs (snd (process ?s 5)) 5) = COMPLETED"
    by (simp_all add: eval_defs)
  have v: "amount (tx_objs ?s 5) = Finite 120" "balance (account_objs ?s 2) = Finite 500"
    "balance (account_objs ?s 4) = Finite 300"
    by (simp_all add: eval_defs)
  have e: "representable (500 - 120)" "representable (300 + 120)"
    using representables by simp_all
  show ?thesis
    using h(1,2,6) v e completed_moves_amount [OF h]
    by (simp add: sums is_finite_def valof_def)
qed

text \<open>
  C3 as stated fails where the sum is rounded: a transaction of \<open>1.0\<close> from an account
  holding \<open>5.0\<close> to an account holding \<open>1e16\<close> completes, the source goes to \<open>4.0\<close>, and
  the destination stays at \<open>1e16\<close>, because \<open>1e16 + 1.0\<close> rounds to \<open>1e16\<close>. The
  destination has not increased and the sum of the two balances has dropped by one.
\<close>

theorem completed_transfer_loses_the_amount:
  "source (tx_objs large_balance_state 3) = Some 1
   \<and> destination (tx_objs large_balance_state 3) = Some 2
   \<and> amount (tx_objs large_balance_state 3) = Finite 1
   \<and> balance (account_objs large_balance_state 1) = Finite 5
   \<and> balance (account_objs large_balance_state 2) = Finite 10000000000000000
   \<and> fst (process large_balance_state 3) = Inr True
   \<and> status (tx_objs (snd (process large_balance_state 3)) 3) = COMPLETED
   \<and> balance (account_objs (snd (process large_balance_state 3)) 1) = Finite 4
   \<and> balance (account_objs (snd (process large_balance_state 3)) 2) = Finite 10000000000000000"
  by (simp add: eval_defs)

text \<open>
  C4, as the code has it. \<open>process\<close> never reads the status, so on a transaction that is
  already \<open>COMPLETED\<close> or \<open>FAILED\<close> (between two distinct existing accounts) a further
  call validates against the current balances again. When that validation fails, the
  call changes no account and sets \<open>FAILED\<close>; when it passes, the call takes the amount
  from the source and adds it to the destination once more and sets \<open>COMPLETED\<close>.
\<close>

theorem reprocess_revalidates:
  assumes "source (tx_objs s t) = Some a" and "destination (tx_objs s t) = Some b"
    and "a \<noteq> b"
    and "status (tx_objs s t) = COMPLETED \<or> status (tx_objs s t) = FAILED"
    and "process s t = (r, s')"
  shows "(\<not> (0 < amount (tx_objs s t) \<and> amount (tx_objs s t) \<le> balance (account_objs s a)) \<longrightarrow>
            r = Inr False \<and> account_objs s' = account_objs s \<and> status (tx_objs s' t) = FAILED)
       \<and> (0 < amount (tx_objs s t) \<and> amount (tx_objs s t) \<le> balance (account_objs s a) \<longrightarrow>
            r = Inr True \<and> status (tx_objs s' t) = COMPLETED
            \<and> balance (account_objs s' a) = balance (account_objs s a) - amount (tx_objs s t)
            \<and> balance (account_objs s' b) = balance (account_objs s b) + amount (tx_objs s t))"
proof (cases "0 < amount (tx_objs s t) \<and> amount (tx_objs s t) \<le> balance (account_objs s a)")
  case True
  then show ?thesis
    using process_ok [OF assms(1,2)] assms(3,5) by auto
next
  case False
  then show ?thesis
    using process_fail [OF assms(1)] assms(5) by auto
qed

text \<open>
  Instances: the completed first transaction of \<open>main.py\<close> processed again (380 and
  420 become 260 and 540), and its failed second transaction processed again (no
  account changes).
\<close>

theorem reprocess_revalidates_witness:
  "source (tx_objs (snd main_tx1) 5) = Some 2 \<and> destination (tx_objs (snd main_tx1) 5) = Some 4
   \<and> status (tx_objs (snd main_tx1) 5) = COMPLETED
   \<and> amount (tx_objs (snd main_tx1) 5) = Finite 120
   \<and> balance (account_objs (snd main_tx1) 2) = Finite 380
   \<and> balance (account_objs (snd main_tx1) 4) = Finite 420
   \<and> fst (process (snd main_tx1) 5) = Inr True
   \<and> balance (account_objs (snd (process (snd main_tx1) 5)) 2) = Finite 260
   \<and> balance (account_objs (snd (process (snd main_tx1) 5)) 4) = Finite 540
   \<and> source (tx_objs (snd main_tx2) 6) = Some 3 \<and> destination (tx_objs (snd main_tx2) 6) = Some 4
   \<and> status (tx_objs (snd main_tx2) 6) = FAILED
   \<and> amount (tx_objs (snd main_tx2) 6) = Finite 500
   \<and> balance (account_objs (snd main_tx2) 3) = Finite 150
   \<and> fst (process (snd main_tx2) 6) = Inr False
   \<and> account_objs (snd (process (snd main_tx2) 6)) = account_objs (snd main_tx2)"
proof -
  have a: "source (tx_objs (snd main_tx1) 5) = Some 2" "destination (tx_objs (snd main_tx1) 5) = Some 4"
    "status (tx_objs (snd main_tx1) 5) = COMPLETED" "amount (tx_objs (snd main_tx1) 5) = Finite 120"
    "balance (account_objs (snd main_tx1) 2) = Finite 380"
    "balance (account_objs (snd main_tx1) 4) = Finite 420"
    by (simp_all add: eval_defs)
  have b: "source (tx_objs (snd main_tx2) 6) = Some 3" "destination (tx_objs (snd main_tx2) 6) = Some 4"
    "status (tx_objs (snd main_tx2) 6) = FAILED" "amount (tx_objs (snd main_tx2) 6) = Finite 500"
    "balance (account_objs (snd main_tx2) 3) = Finite 150"
    by (simp_all add: eval_defs)
  have n: "(2::nat) \<noteq> 4" "(3::nat) \<noteq> 4" by simp_all
  show ?thesis
    using a b
      reprocess_revalidates [OF a(1) a(2) n(1), of "fst (process (snd main_tx1) 5)" "snd (process (snd main_tx1) 5)"]
      reprocess_revalidates [OF b(1) b(2) n(2), of "fst (process (snd main_tx2) 6)" "snd (process (snd main_tx2) 6)"]
    by (simp add: sums zero_float_def)
qed

text \<open>
  C4 as stated fails: after \<open>transfer(101, 201, 120.0)\<close> has completed, a second
  \<open>process()\<close> of the same transaction returns \<open>True\<close> and moves another 120.
\<close>

theorem second_process_applies_again:
  "fst main_tx1 = Inr 5
   \<and> status (tx_objs (snd main_tx1) 5) = COMPLETED
   \<and> balance (account_objs (snd main_tx1) 2) = Finite 380
   \<and> balance (account_objs (snd main_tx1) 4) = Finite 420
   \<and> fst (process (snd main_tx1) 5) = Inr True
   \<and> balance (account_objs (snd (process (snd main_tx1) 5)) 2) = Finite 260
   \<and> balance (account_objs (snd (process (snd main_tx1) 5)) 4) = Finite 540"
  by (simp add: eval_defs)

subsection \<open>\<open>transfer\<close>\<close>

text \<open>
  C5, as the code has it. There is no \<open>AccountNotFound\<close>: \<open>transfer\<close> always
  constructs the transaction and advances the id counter. With an unknown source id the
  call ends in an \<open>AttributeError\<close> and changes no account; for a positive amount the
  error comes from \<open>validate\<close> and nothing is persisted, for any other amount (zero,
  negative or NaN) the transaction is set to \<open>FAILED\<close> and persisted before the
  notification raises. With a known source, an unknown destination and a failing
  validation, the call returns a \<open>FAILED\<close> transaction, persists it, notifies the
  source's owner and changes no account.
\<close>

theorem transfer_unresolved_account:
  assumes "transfer s sid did amt = (r, s')"
  shows "tx_id (tx_objs s' (next_ref s)) = next_tx_id s
       \<and> next_tx_id s' = next_tx_id s + 1
       \<and> (store_accounts s sid = None \<and> 0 < amt \<longrightarrow>
            r = Inl (AttributeError ''get_balance'')
            \<and> account_objs s' = account_objs s
            \<and> store_transactions s' = store_transactions s
            \<and> notified s' = notified s
            \<and> status (tx_objs s' (next_ref s)) = PENDING)
       \<and> (store_accounts s sid = None \<and> \<not> 0 < amt \<longrightarrow>
            r = Inl (AttributeError ''owner'')
            \<and> account_objs s' = account_objs s
            \<and> store_transactions s' = (store_transactions s)(next_tx_id s \<mapsto> next_ref s)
            \<and> notified s' = notified s
            \<and> status (tx_objs s' (next_ref s)) = FAILED)
       \<and> (store_accounts s sid = Some a \<and> store_accounts s did = None
            \<and> \<not> (0 < amt \<and> amt \<le> balance (account_objs s a)) \<longrightarrow>
            r = Inr (next_ref s)
            \<and> account_objs s' = account_objs s
            \<and> store_transactions s' = (store_transactions s)(next_tx_id s \<mapsto> next_ref s)
            \<and> notified s' = notified s @ [(owner (account_objs s a), TransferFailed amt)]
            \<and> status (tx_objs s' (next_ref s)) = FAILED)"
proof -
  define s2 where "s2 = s\<lparr>tx_objs := (tx_objs s)
             (next_ref s := \<lparr>tx_id = next_tx_id s, source = store_accounts s sid,
                destination = store_accounts s did, amount = amt, status = PENDING\<rparr>),
           next_ref := Suc (next_ref s), next_tx_id := next_tx_id s + 1\<rparr>"
  have s2: "source (tx_objs s2 (next_ref s)) = store_accounts s sid"
    "destination (tx_objs s2 (next_ref s)) = store_accounts s did"
    "amount (tx_objs s2 (next_ref s)) = amt"
    "tx_id (tx_objs s2 (next_ref s)) = next_tx_id s"
    "status (tx_objs s2 (next_ref s)) = PENDING"
    "account_objs s2 = account_objs s" "notified s2 = notified s"
    "store_transactions s2 = store_transactions s"
    by (simp_all add: s2_def)
  have tr: "transfer s sid did amt =
     (case process s2 (next_ref s) of
        (Inl e, s3) \<Rightarrow> (Inl e, s3)
      | (Inr success, s3) \<Rightarrow>
          transfer_notify (save_transaction s3 (next_ref s)) (store_accounts s sid)
            (store_accounts s did) amt success (next_ref s))"
    unfolding s2_def transfer_eq ..
  have ids: "tx_id (tx_objs s' (next_ref s)) = next_tx_id s" "next_tx_id s' = next_tx_id s + 1"
    using transfer_tx_id [of s sid did amt "next_ref s"] transfer_frame(4) [of s sid did amt]
    by (simp_all add: assms)
  have A: "r = Inl (AttributeError ''get_balance'')
            \<and> account_objs s' = account_objs s
            \<and> store_transactions s' = store_transactions s
            \<and> notified s' = notified s
            \<and> status (tx_objs s' (next_ref s)) = PENDING"
    if "store_accounts s sid = None" "0 < amt"
  proof -
    have "process s2 (next_ref s) = (Inl (AttributeError ''get_balance''), s2)"
      using that by (intro process_no_source) (simp_all add: s2)
    then have "r = Inl (AttributeError ''get_balance'')" "s' = s2"
      using assms by (simp_all add: tr)
    then show ?thesis by (simp add: s2)
  qed
  have B: "r = Inl (AttributeError ''owner'')
            \<and> account_objs s' = account_objs s
            \<and> store_transactions s' = (store_transactions s)(next_tx_id s \<mapsto> next_ref s)
            \<and> notified s' = notified s
            \<and> status (tx_objs s' (next_ref s)) = FAILED"
    if "store_accounts s sid = None" "\<not> 0 < amt"
  proof -
    have "process s2 (next_ref s) = (Inr False, upd_tx s2 (next_ref s) (\<lambda>tx. tx\<lparr>status := FAILED\<rparr>))"
      using that by (intro process_nonpositive) (simp_all add: s2)
    then show ?thesis using assms that by (auto simp: tr s2 transfer_notify_def)
  qed
  have C: "r = Inr (next_ref s)
            \<and> account_objs s' = account_objs s
            \<and> store_transactions s' = (store_transactions s)(next_tx_id s \<mapsto> next_ref s)
            \<and> notified s' = notified s @ [(owner (account_objs s a), TransferFailed amt)]
            \<and> status (tx_objs s' (next_ref s)) = FAILED"
    if "store_accounts s sid = Some a" "store_accounts s did = None"
      "\<not> (0 < amt \<and> amt \<le> balance (account_objs s a))"
  proof -
    have "process s2 (next_ref s) = (Inr False, upd_tx s2 (next_ref s) (\<lambda>tx. tx\<lparr>status := FAILED\<rparr>))"
      using that by (intro process_fail [where a = a]) (simp_all add: s2)
    then show ?thesis using assms that by (auto simp: tr s2 transfer_notify_def)
  qed
  show ?thesis using ids A B C by blast
qed

text \<open>
  Instances on the data of \<open>main.py\<close>: \<open>transfer(999, 201, 500.0)\<close>,
  \<open>transfer(999, 201, 0)\<close>, \<open>transfer(999, 201, nan)\<close> and
  \<open>transfer(102, 999, 500.0)\<close>.
\<close>

theorem transfer_unresolved_account_witness:
  "store_accounts main_state 999 = None \<and> store_accounts main_state 102 = Some 3
   \<and> balance (account_objs main_state 3) = Finite 150
   \<and> fst (transfer main_state 999 201 (Finite 500)) = Inl (AttributeError ''get_balance'')
   \<and> account_objs (snd (transfer main_state 999 201 (Finite 500))) = account_objs main_state
   \<and> store_transactions (snd (transfer main_state 999 201 (Finite 500)))
        = store_transactions main_state
   \<and> next_tx_id (snd (transfer main_state 999 201 (Finite 500))) = 2
   \<and> fst (transfer main_state 999 201 0) = Inl (AttributeError ''owner'')
   \<and> account_objs (snd (transfer main_state 999 201 0)) = account_objs main_state
   \<and> store_transactions (snd (transfer main_state 999 201 0)) 1 = Some 5
   \<and> fst (transfer main_state 999 201 NaN) = Inl (AttributeError ''owner'')
   \<and> store_transactions (snd (transfer main_state 999 201 NaN)) 1 = Some 5
   \<and> fst (transfer main_state 102 999 (Finite 500)) = Inr 5
   \<and> account_objs (snd (transfer main_state 102 999 (Finite 500))) = account_objs main_state
   \<and> store_transactions (snd (transfer main_state 102 999 (Finite 500))) 1 = Some 5
   \<and> status (tx_objs (snd (transfer main_state 102 999 (Finite 500))) 5) = FAILED"
proof -
  have h: "store_accounts main_state 999 = None" "store_accounts main_state 102 = Some 3"
    "balance (account_objs main_state 3) = Finite 150" "next_ref main_state = 5"
    "next_tx_id main_state = 1"
    by (simp_all add: main_state_facts)
  have p: "\<And>x. x = (fst x, snd x)" by simp
  show ?thesis
    using h
      transfer_unresolved_account [OF p [of "transfer main_state 999 201 (Finite 500)"], of 0]
      transfer_unresolved_account [OF p [of "transfer main_state 999 201 0"], of 0]
      transfer_unresolved_account [OF p [of "transfer main_state 999 201 NaN"], of 0]
      transfer_unresolved_account [OF p [of "transfer main_state 102 999 (Finite 500)"], of 3]
    by (simp add: zero_float_def)
qed

text \<open>
  C5 as stated fails: \<open>transfer(102, 999, 500.0)\<close>, whose destination id is unknown,
  raises nothing. It returns a transaction and has persisted it under id 1.
\<close>

theorem unknown_destination_returns_transaction:
  "store_accounts main_state 999 = None
   \<and> fst (transfer main_state 102 999 (fl 500)) = Inr 5
   \<and> tx_id (tx_objs (snd (transfer main_state 102 999 (fl 500))) 5) = 1
   \<and> status (tx_objs (snd (transfer main_state 102 999 (fl 500))) 5) = FAILED
   \<and> store_transactions main_state 1 = None
   \<and> store_transactions (snd (transfer main_state 102 999 (fl 500))) 1 = Some 5"
  by (simp add: eval_defs)

text \<open>
  C6. After a \<open>BankingService\<close> has been created, any sequence of \<open>transfer\<close> calls
  constructs one transaction per call, whatever the outcome of the call, and the ids of
  these transactions in call order are 1, 2, 3 and so on: pairwise distinct and strictly
  increasing. The counter ends one above the number of calls.
\<close>

theorem transaction_ids_count_from_one:
  "map tx_id (constructed (BankingService_init s) (transfers (BankingService_init s) calls))
     = map int [1 ..< Suc (length calls)]
   \<and> distinct (map tx_id (constructed (BankingService_init s) (transfers (BankingService_init s) calls)))
   \<and> sorted_wrt (<) (map tx_id (constructed (BankingService_init s) (transfers (BankingService_init s) calls)))
   \<and> length (constructed (BankingService_init s) (transfers (BankingService_init s) calls)) = length calls
   \<and> next_tx_id (transfers (BankingService_init s) calls) = 1 + int (length calls)"
proof -
  let ?s0 = "BankingService_init s"
  have one: "next_tx_id ?s0 = 1" by (simp add: BankingService_init_def)
  have cnt: "next_ref (transfers ?s0 calls) = next_ref ?s0 + length calls"
    "next_tx_id (transfers ?s0 calls) = 1 + int (length calls)"
    using transfers_counters [of ?s0 calls] one by simp_all
  have "map tx_id (constructed ?s0 (transfers ?s0 calls))
      = map (\<lambda>k. 1 + int k) [0 ..< length calls]"
    using transfers_ids [of ?s0 calls] by (simp add: constructed_def cnt one comp_def)
  also have "\<dots> = map int [1 ..< Suc (length calls)]"
    by (induction calls rule: rev_induct) simp_all
  finally have ids: "map tx_id (constructed ?s0 (transfers ?s0 calls)) = map int [1 ..< Suc (length calls)]" .
  have "distinct (map int [1 ..< Suc (length calls)])"
    by (simp add: distinct_map del: upt_Suc)
  moreover have "sorted_wrt (<) (map int [1 ..< Suc (length calls)])"
    by (simp add: sorted_wrt_map del: upt_Suc)
  moreover have "length (constructed ?s0 (transfers ?s0 calls)) = length calls"
    by (simp add: constructed_def cnt)
  ultimately show ?thesis using ids cnt by simp
qed

text \<open>
  C8. A \<open>transfer\<close> between two accounts that the database resolves returns its
  transaction, which is \<open>COMPLETED\<close> or \<open>FAILED\<close>. If it is \<open>COMPLETED\<close>, exactly two
  notifications were added: first to the owner of the source, then to the owner of the
  destination. If it is \<open>FAILED\<close>, exactly one was added, to the owner of the source.
\<close>

theorem transfer_notifications:
  assumes "store_accounts s sid = Some a" and "store_accounts s did = Some b"
    and "transfer s sid did amt = (r, s')"
  shows "r = Inr (next_ref s)
       \<and> (status (tx_objs s' (next_ref s)) = COMPLETED \<or> status (tx_objs s' (next_ref s)) = FAILED)
       \<and> (status (tx_objs s' (next_ref s)) = COMPLETED \<longrightarrow>
            notified s' = notified s @
              [(owner (account_objs s a), TransferSucceeded amt (account_id (account_objs s b))),
               (owner (account_objs s b), Received amt (account_id (account_objs s a)))])
       \<and> (status (tx_objs s' (next_ref s)) = FAILED \<longrightarrow>
            notified s' = notified s @ [(owner (account_objs s a), TransferFailed amt)])"
proof -
  define s2 where "s2 = s\<lparr>tx_objs := (tx_objs s)
             (next_ref s := \<lparr>tx_id = next_tx_id s, source = store_accounts s sid,
                destination = store_accounts s did, amount = amt, status = PENDING\<rparr>),
           next_ref := Suc (next_ref s), next_tx_id := next_tx_id s + 1\<rparr>"
  have src: "source (tx_objs s2 (next_ref s)) = Some a"
    and dst: "destination (tx_objs s2 (next_ref s)) = Some b"
    and amt: "amount (tx_objs s2 (next_ref s)) = amt"
    and acc: "account_objs s2 = account_objs s"
    and ntf: "notified s2 = notified s"
    using assms(1,2) by (simp_all add: s2_def)
  have tr: "transfer s sid did amt =
     (case process s2 (next_ref s) of
        (Inl e, s3) \<Rightarrow> (Inl e, s3)
      | (Inr success, s3) \<Rightarrow>
          transfer_notify (save_transaction s3 (next_ref s)) (Some a) (Some b) amt success (next_ref s))"
    unfolding s2_def transfer_eq assms(1,2) ..
  show ?thesis
  proof (cases "0 < amt \<and> amt \<le> balance (account_objs s a)")
    case True
    then have "process s2 (next_ref s) =
     (Inr True,
      upd_tx (add_transaction (add_transaction
         (upd_account (upd_account s2 a (\<lambda>acc. acc\<lparr>balance := balance acc - amt\<rparr>))
            b (\<lambda>acc. acc\<lparr>balance := balance acc + amt\<rparr>)) a (next_ref s)) b (next_ref s))
        (next_ref s) (\<lambda>tx. tx\<lparr>status := COMPLETED\<rparr>))"
      using process_ok [OF src dst] by (simp add: amt acc)
    with assms(3) show ?thesis
      by (auto simp: tr transfer_notify_def Let_def acc ntf)
  next
    case False
    then have "process s2 (next_ref s) =
       (Inr False, upd_tx s2 (next_ref s) (\<lambda>tx. tx\<lparr>status := FAILED\<rparr>))"
      using process_fail [OF src] by (simp add: amt acc)
    with assms(3) show ?thesis
      by (auto simp: tr transfer_notify_def acc ntf)
  qed
qed

text \<open>Instances: the two transfers of \<open>main.py\<close>, the first completed, the second failed.\<close>

theorem transfer_notifications_witness:
  "store_accounts main_state 101 = Some 2 \<and> store_accounts main_state 201 = Some 4
   \<and> fst main_tx1 = Inr 5
   \<and> status (tx_objs (snd main_tx1) 5) = COMPLETED
   \<and> notified (snd main_tx1)
        = [(0, TransferSucceeded (fl 120) 201), (1, Received (fl 120) 101)]
   \<and> store_accounts (snd main_tx1) 102 = Some 3 \<and> store_accounts (snd main_tx1) 201 = Some 4
   \<and> fst main_tx2 = Inr 6
   \<and> status (tx_objs (snd main_tx2) 6) = FAILED
   \<and> notified (snd main_tx2)
        = [(0, TransferSucceeded (fl 120) 201), (1, Received (fl 120) 101),
           (0, TransferFailed (fl 500))]"
proof -
  have a: "store_accounts main_state 101 = Some 2" "store_accounts main_state 201 = Some 4"
    "transfer main_state 101 201 (fl 120) = (fst main_tx1, snd main_tx1)"
    by (simp_all add: main_state_facts main_tx1_def)
  have b: "store_accounts (snd main_tx1) 102 = Some 3" "store_accounts (snd main_tx1) 201 = Some 4"
    "transfer (snd main_tx1) 102 201 (fl 500) = (fst main_tx2, snd main_tx2)"
    by (simp_all add: eval_defs)
  have v: "next_ref main_state = 5" "notified main_state = []"
    "owner (account_objs main_state 2) = 0" "owner (account_objs main_state 4) = 1"
    "account_id (account_objs main_state 2) = 101" "account_id (account_objs main_state 4) = 201"
    "status (tx_objs (snd main_tx1) 5) = COMPLETED"
    "next_ref (snd main_tx1) = 6"
    "owner (account_objs (snd main_tx1) 3) = 0"
    "status (tx_objs (snd main_tx2) 6) = FAILED"
    by (simp_all add: eval_defs)
  show ?thesis
    using a(1,2) b(1,2) v transfer_notifications [OF a] transfer_notifications [OF b]
    by simp
qed

text \<open>
  C10, as the code has it. A transfer from an account to itself of a positive amount
  that the balance covers returns a \<open>COMPLETED\<close> transaction and appends the transaction
  twice to the account's history. The balance becomes the float result of
  \<open>(balance - amount) + amount\<close>, rounded after each of the two operations; it is the
  old balance whenever that balance is a finite double and the exact difference
  \<open>balance - amount\<close> is representable.
\<close>

theorem self_transfer:
  assumes "store_accounts s aid = Some a"
    and "0 < amt" and "amt \<le> balance (account_objs s a)"
    and "transfer s aid aid amt = (r, s')"
  shows "r = Inr (next_ref s)
       \<and> status (tx_objs s' (next_ref s)) = COMPLETED
       \<and> balance (account_objs s' a) = (balance (account_objs s a) - amt) + amt
       \<and> transactions (account_objs s' a)
           = transactions (account_objs s a) @ [next_ref s, next_ref s]
       \<and> (is_finite (balance (account_objs s a))
          \<and> representable (valof (balance (account_objs s a)))
          \<and> representable (valof (balance (account_objs s a)) - valof amt)
          \<longrightarrow> balance (account_objs s' a) = balance (account_objs s a))"
proof -
  define s2 where "s2 = s\<lparr>tx_objs := (tx_objs s)
             (next_ref s := \<lparr>tx_id = next_tx_id s, source = store_accounts s aid,
                destination = store_accounts s aid, amount = amt, status = PENDING\<rparr>),
           next_ref := Suc (next_ref s), next_tx_id := next_tx_id s + 1\<rparr>"
  have src: "source (tx_objs s2 (next_ref s)) = Some a"
    and dst: "destination (tx_objs s2 (next_ref s)) = Some a"
    and amt: "amount (tx_objs s2 (next_ref s)) = amt"
    and acc: "account_objs s2 = account_objs s"
    using assms(1) by (simp_all add: s2_def)
  have tr: "transfer s aid aid amt =
     (case process s2 (next_ref s) of
        (Inl e, s3) \<Rightarrow> (Inl e, s3)
      | (Inr success, s3) \<Rightarrow>
          transfer_notify (save_transaction s3 (next_ref s)) (Some a) (Some a) amt success (next_ref s))"
    unfolding s2_def transfer_eq assms(1) ..
  have "process s2 (next_ref s) =
     (Inr True,
      upd_tx (add_transaction (add_transaction
         (upd_account (upd_account s2 a (\<lambda>acc. acc\<lparr>balance := balance acc - amt\<rparr>))
            a (\<lambda>acc. acc\<lparr>balance := balance acc + amt\<rparr>)) a (next_ref s)) a (next_ref s))
        (next_ref s) (\<lambda>tx. tx\<lparr>status := COMPLETED\<rparr>))"
    using process_ok [OF src dst] assms(2,3) by (simp add: amt acc)
  with assms(4) have main: "r = Inr (next_ref s)
       \<and> status (tx_objs s' (next_ref s)) = COMPLETED
       \<and> balance (account_objs s' a) = (balance (account_objs s a) - amt) + amt
       \<and> transactions (account_objs s' a)
           = transactions (account_objs s a) @ [next_ref s, next_ref s]"
    by (auto simp: tr transfer_notify_def Let_def acc)
  then show ?thesis
    using add_back_exact [OF assms(2,3)] by simp
qed

text \<open>
  An instance: \<open>transfer(101, 101, 120.0)\<close> on the data of \<open>main.py\<close>, where 500 and 380
  are representable.
\<close>

theorem self_transfer_witness:
  "store_accounts main_state 101 = Some 2
   \<and> 0 < fl 120 \<and> fl 120 \<le> balance (account_objs main_state 2)
   \<and> is_finite (balance (account_objs main_state 2))
   \<and> representable (valof (balance (account_objs main_state 2)))
   \<and> representable (valof (balance (account_objs main_state 2)) - valof (fl 120))
   \<and> fst (transfer main_state 101 101 (fl 120)) = Inr 5
   \<and> status (tx_objs (snd (transfer main_state 101 101 (fl 120))) 5) = COMPLETED
   \<and> balance (account_objs (snd (transfer main_state 101 101 (fl 120))) 2) = Finite 500
   \<and> transactions (account_objs (snd (transfer main_state 101 101 (fl 120))) 2) = [5, 5]"
proof -
  have h: "store_accounts main_state 101 = Some 2" "0 < fl 120"
    "fl 120 \<le> balance (account_objs main_state 2)"
    "transfer main_state 101 101 (fl 120)
       = (fst (transfer main_state 101 101 (fl 120)), snd (transfer main_state 101 101 (fl 120)))"
    by (simp_all add: main_state_facts literals zero_float_def)
  have v: "next_ref main_state = 5" "balance (account_objs main_state 2) = Finite 500"
    "transactions (account_objs main_state 2) = []"
    by (simp_all add: eval_defs)
  have e: "is_finite (balance (account_objs main_state 2))"
    "representable (valof (balance (account_objs main_state 2)))"
    "representable (valof (balance (account_objs main_state 2)) - valof (fl 120))"
    using representables by (simp_all add: v literals is_finite_def valof_def)
  show ?thesis
    using h(1,2,3) v e self_transfer [OF h] by (simp add: literals sums)
qed

text \<open>
  C10 as stated fails where the two operations round: on an account holding \<open>0.9\<close>,
  \<open>transfer(7, 7, 0.2)\<close> completes and leaves the balance at \<open>0.8999999999999999\<close> (the
  double \<open>2026619832316723 / 2251799813685248\<close>), not at \<open>0.9\<close> (the double
  \<open>8106479329266893 / 9007199254740992\<close>).
\<close>

theorem self_transfer_changes_balance:
  "store_accounts single_account_state 7 = Some 1
   \<and> balance (account_objs single_account_state 1) = fl (9 / 10)
   \<and> 0 < fl (2 / 10) \<and> fl (2 / 10) \<le> fl (9 / 10)
   \<and> fst (transfer single_account_state 7 7 (fl (2 / 10))) = Inr 2
   \<and> status (tx_objs (snd (transfer single_account_state 7 7 (fl (2 / 10)))) 2) = COMPLETED
   \<and> balance (account_objs (snd (transfer single_account_state 7 7 (fl (2 / 10)))) 1)
        = Finite (2026619832316723 / 2251799813685248)
   \<and> balance (account_objs (snd (transfer single_account_state 7 7 (fl (2 / 10)))) 1)
        \<noteq> balance (account_objs single_account_state 1)"
  by (simp add: eval_defs)

end
